theory Spec2Isabelle
  imports Complex_Main
begin

section \<open>Data model of \<open>src/src/App.tsx\<close>\<close>

text \<open>
  The component \<open>App\<close> keeps the edit history in two React state cells, \<open>history\<close>
  (an array of \<open>AppState\<close>) and \<open>historyIndex\<close> (a number, initially \<open>-1\<close>). Every
  handler is modelled as a function from the component state at the moment the handler is
  called to the state after all of its \<open>set...\<close> calls have been applied. Two effects on the
  browser are part of the state: the log of \<open>URL.revokeObjectURL\<close> calls and the number of
  \<open>URL.createObjectURL\<close> calls made so far. The \<open>useEffect\<close> hooks of the component write
  only \<open>imageDimensions\<close>, \<open>prompt\<close>, \<open>activeTool\<close>, \<open>maskImage\<close> and \<open>displayHotspot\<close>, never
  the history; they are not part of a handler, and appear as setter actions of a session.
\<close>

text \<open>\<open>File\<close>: the bytes, the file name and the MIME type handed to the constructor.\<close>

record File =
  file_bits :: string
  file_name :: string
  file_type :: string

text \<open>
  \<open>interface Layer { id; imageUrl; prompt }\<close>. The fields carry the prefix \<open>layer_\<close>
  because \<open>id\<close> is a constant of HOL and the other two names are used again below.
\<close>

record Layer =
  layer_id :: string
  layer_imageUrl :: string
  layer_prompt :: string

text \<open>\<open>interface AppState { imageFile; imageUrl; layers }\<close>\<close>

record AppState =
  imageFile :: File
  imageUrl :: string
  layers :: "Layer list"

text \<open>\<open>type Tab\<close>; the tab \<open>'crop'\<close> is \<open>crop_tab\<close>, since \<open>crop\<close> is a state cell below.\<close>

datatype Tab = edit | solutions | studio | product | adjust | filters | crop_tab

datatype EditTool = point | brush | erase

text \<open>
  A JavaScript number. The special values of IEEE arithmetic are kept apart; a finite
  number is taken as the exact rational it denotes (the rounding of intermediate results
  to 53 bits and the sign of zero are not modelled).
\<close>

datatype jsnum = Fin rat | PosInf | NegInf | NaN

record PixelCrop =
  crop_x :: rat
  crop_y :: rat
  crop_width :: rat
  crop_height :: rat

record App =
  history :: "AppState list"
  historyIndex :: int
  activeLayerId :: "string option"
  prompt :: string
  loadingMessage :: "string option"
  error :: "string option"
  activeTab :: Tab
  activeTool :: EditTool
  maskImage :: "string option"
  editHotspot :: "(jsnum \<times> jsnum) option"
  displayHotspot :: "(jsnum \<times> jsnum) option"
  crop :: "PixelCrop option"
  completedCrop :: "PixelCrop option"
  revoked :: "string list"
  created :: nat

text \<open>The initial values of the \<open>useState\<close> cells.\<close>

definition initialApp :: App where
  "initialApp =
     \<lparr>history = [], historyIndex = - 1, activeLayerId = None, prompt = [],
      loadingMessage = None, error = None, activeTab = edit, activeTool = point,
      maskImage = None, editHotspot = None, displayHotspot = None, crop = None,
      completedCrop = None, revoked = [], created = 0\<rparr>"

subsection \<open>Array primitives\<close>

text \<open>
  \<open>Array.prototype.slice(start, end)\<close> on integer arguments: a negative argument counts
  from the end, and both are clamped to the array.
\<close>

definition slice_pos :: "nat \<Rightarrow> int \<Rightarrow> nat" where
  "slice_pos len k = (if k < 0 then nat (max (int len + k) 0) else min (nat k) len)"

definition slice :: "'a list \<Rightarrow> int \<Rightarrow> int \<Rightarrow> 'a list" where
  "slice xs start fin =
     (let k = slice_pos (length xs) start; final = slice_pos (length xs) fin
      in take (final - k) (drop k xs))"

definition slice_from :: "'a list \<Rightarrow> int \<Rightarrow> 'a list" where
  "slice_from xs start = drop (slice_pos (length xs) start) xs"

text \<open>\<open>history[historyIndex] ?? null\<close>\<close>

definition currentState :: "App \<Rightarrow> AppState option" where
  "currentState s =
     (if 0 \<le> historyIndex s \<and> historyIndex s < int (length (history s))
      then Some (history s ! nat (historyIndex s)) else None)"

definition currentLayers :: "App \<Rightarrow> Layer list" where
  "currentLayers s = (case currentState s of None \<Rightarrow> [] | Some st \<Rightarrow> layers st)"

text \<open>\<open>currentLayers.find(l => l.id === activeLayerId) ?? null\<close>\<close>

definition activeLayer :: "App \<Rightarrow> Layer option" where
  "activeLayer s =
     (case activeLayerId s of
        None \<Rightarrow> None
      | Some a \<Rightarrow> find (\<lambda>l. layer_id l = a) (currentLayers s))"

definition canUndo :: "App \<Rightarrow> bool" where
  "canUndo s = (historyIndex s > 0)"

definition canRedo :: "App \<Rightarrow> bool" where
  "canRedo s = (historyIndex s < int (length (history s)) - 1)"

subsection \<open>History operations\<close>

definition addImageToHistory :: "AppState \<Rightarrow> App \<Rightarrow> App" where
  "addImageToHistory newAppState s =
     (let released =
            (if historyIndex s < int (length (history s)) - 1
             then map imageUrl (slice_from (history s) (historyIndex s + 1)) else []);
          newHistory = slice (history s) 0 (historyIndex s + 1) @ [newAppState]
      in s\<lparr>history := newHistory,
            historyIndex := int (length newHistory) - 1,
            crop := None, completedCrop := None, maskImage := None,
            revoked := revoked s @ released\<rparr>)"

definition handleUndo :: "App \<Rightarrow> App" where
  "handleUndo s =
     (if canUndo s
      then s\<lparr>historyIndex := historyIndex s - 1, editHotspot := None,
             displayHotspot := None, activeLayerId := None, maskImage := None\<rparr>
      else s)"

definition handleRedo :: "App \<Rightarrow> App" where
  "handleRedo s =
     (if canRedo s
      then s\<lparr>historyIndex := historyIndex s + 1, editHotspot := None,
             displayHotspot := None, activeLayerId := None, maskImage := None\<rparr>
      else s)"

definition handleReset :: "App \<Rightarrow> App" where
  "handleReset s =
     (if length (history s) > 0
      then s\<lparr>historyIndex := 0, error := None, editHotspot := None,
             displayHotspot := None, activeLayerId := None, maskImage := None\<rparr>
      else s)"

definition handleUploadNew :: "App \<Rightarrow> App" where
  "handleUploadNew s =
     s\<lparr>history := [], historyIndex := - 1, error := None, prompt := [],
       editHotspot := None, displayHotspot := None, activeLayerId := None,
       maskImage := None\<rparr>"

definition handleDeleteLayer :: "string \<Rightarrow> App \<Rightarrow> App" where
  "handleDeleteLayer layerId s =
     (case currentState s of
        None \<Rightarrow> s
      | Some st \<Rightarrow>
          (let newLayers = filter (\<lambda>l. layer_id l \<noteq> layerId) (currentLayers s);
               s' = addImageToHistory (st\<lparr>layers := newLayers\<rparr>) s
           in if activeLayerId s = Some layerId
              then s'\<lparr>activeLayerId := None, activeTool := point\<rparr> else s'))"

subsection \<open>Strings\<close>

text \<open>
  Strings are lists of 8-bit characters (code units below 256). \<open>Number.toString\<close> on a
  natural number gives its decimal digits.
\<close>

fun toString :: "nat \<Rightarrow> string" where
  "toString n =
     (if n < 10 then [''0123456789'' ! n]
      else toString (n div 10) @ [''0123456789'' ! (n mod 10)])"

declare toString.simps [simp del]

text \<open>\<open>String.prototype.trim\<close>: white space and line terminators go from both ends.\<close>

definition is_space :: "char \<Rightarrow> bool" where
  "is_space c =
     (c \<in> set [CHR 0x09, CHR 0x0A, CHR 0x0B, CHR 0x0C, CHR 0x0D, CHR 0x20, CHR 0xA0])"

definition trim :: "string \<Rightarrow> string" where
  "trim str = rev (dropWhile is_space (rev (dropWhile is_space str)))"

text \<open>\<open>!!x\<close> for \<open>x: string | null\<close>: the empty string is falsy as well.\<close>

definition truthy :: "string option \<Rightarrow> bool" where
  "truthy x = (case x of None \<Rightarrow> False | Some str \<Rightarrow> str \<noteq> [])"

text \<open>\<open>String.prototype.split\<close> with a one-character separator.\<close>

fun split :: "char \<Rightarrow> string \<Rightarrow> string list" where
  "split c [] = [[]]"
| "split c (x # xs) =
     (if x = c then [] # split c xs
      else (let r = split c xs in (x # hd r) # tl r))"

text \<open>
  \<open>str.match(/:(.*?);/)\<close>: the capture group of the leftmost match, if there is one. The
  dot matches no line terminator, and the lazy star stops at the first semicolon.
\<close>

fun upto_semicolon :: "string \<Rightarrow> string option" where
  "upto_semicolon [] = None"
| "upto_semicolon (c # cs) =
     (if c = CHR '';'' then Some []
      else if c = CHR 0x0A \<or> c = CHR 0x0D then None
      else map_option (\<lambda>g. c # g) (upto_semicolon cs))"

fun mimeMatch :: "string \<Rightarrow> string option" where
  "mimeMatch [] = None"
| "mimeMatch (c # cs) =
     (if c = CHR '':'' then
        (case upto_semicolon cs of Some g \<Rightarrow> Some g | None \<Rightarrow> mimeMatch cs)
      else mimeMatch cs)"

subsection \<open>Outcomes of asynchronous and throwing code\<close>

text \<open>
  A thrown or rejected value is an \<open>Error\<close> with its message, or some other value (the
  \<open>Event\<close> that \<open>onerror\<close> passes to \<open>reject\<close>). An awaited computation returns, throws, or
  never settles.
\<close>

datatype exn = Error string | Thrown

datatype 'a outcome = Returns 'a | Throws exn | Pending

text \<open>\<open>err instanceof Error ? err.message : 'An unknown error occurred.'\<close>\<close>

fun errorMessage :: "exn \<Rightarrow> string" where
  "errorMessage (Error m) = m"
| "errorMessage Thrown = ''An unknown error occurred.''"

text \<open>
  What a handler reads from the browser and from \<open>services/geminiService\<close> (which is not
  part of the sources at hand, so its three calls are parameters): the clock, whether an
  image source decodes, whether a canvas yields a 2D context, the encoding of a canvas
  (given as the list of sources drawn on it, in drawing order), \<open>atob\<close>, and whether the
  \<open>img\<close> element of \<open>imgRef\<close> is mounted.
\<close>

record Env =
  now :: nat
  now_flatten :: nat
  loads :: "string \<Rightarrow> bool"
  context2d :: bool
  crop_context2d :: bool
  toDataURL :: "string list \<Rightarrow> string"
  crop_toDataURL :: "string \<Rightarrow> PixelCrop \<Rightarrow> string"
  atob :: "string \<Rightarrow> exn + string"
  imgMounted :: bool
  generateEditedImage ::
    "File \<Rightarrow> string \<Rightarrow> (jsnum \<times> jsnum) option \<Rightarrow> string option \<Rightarrow> string outcome"
  removeObjectInpainting :: "File option \<Rightarrow> string \<Rightarrow> string outcome"

text \<open>
  The state a \<open>try\<close> block has reached when it completed, threw, or stopped at an
  \<open>await\<close> that never settles.
\<close>

datatype progress = Done App | Failed exn App | Stuck App

definition dataURLtoFile :: "Env \<Rightarrow> string \<Rightarrow> string \<Rightarrow> File outcome" where
  "dataURLtoFile env dataurl filename =
     (let arr = split CHR '','' dataurl in
      if length arr < 2 then Throws (Error ''Invalid data URL'')
      else
        (case mimeMatch (arr ! 0) of
           None \<Rightarrow> Throws (Error ''Could not parse MIME type from data URL'')
         | Some mime \<Rightarrow>
             if mime = [] then Throws (Error ''Could not parse MIME type from data URL'')
             else
               (case atob env (arr ! 1) of
                  Inl e \<Rightarrow> Throws e
                | Inr bstr \<Rightarrow>
                    Returns \<lparr>file_bits = bstr, file_name = filename, file_type = mime\<rparr>)))"

text \<open>
  \<open>URL.createObjectURL\<close> returns a URL that no earlier call returned; the model numbers
  them.
\<close>

definition createObjectURL :: "App \<Rightarrow> string \<times> App" where
  "createObjectURL s = (''blob:'' @ toString (created s), s\<lparr>created := Suc (created s)\<rparr>)"

subsection \<open>Upload and layer generation\<close>

definition handleImageUpload :: "File \<Rightarrow> App \<Rightarrow> App" where
  "handleImageUpload file s =
     (let (url, s1) = createObjectURL (s\<lparr>error := None\<rparr>)
      in s1\<lparr>history := [\<lparr>imageFile = file, imageUrl = url, layers = []\<rparr>],
            historyIndex := 0, activeLayerId := None, editHotspot := None,
            displayHotspot := None, activeTab := edit, activeTool := point,
            crop := None, completedCrop := None\<rparr>)"

definition hasPointSelection :: "App \<Rightarrow> bool" where
  "hasPointSelection s = (activeTool s = point \<and> editHotspot s \<noteq> None)"

definition hasBrushSelection :: "App \<Rightarrow> bool" where
  "hasBrushSelection s = (activeTool s \<noteq> point \<and> truthy (maskImage s))"

text \<open>The layer list of the entry that a successful generation pushes.\<close>

definition newLayers :: "Env \<Rightarrow> App \<Rightarrow> string \<Rightarrow> Layer list \<times> string" where
  "newLayers env s newLayerUrl =
     (case activeLayer s of
        Some al \<Rightarrow>
          (let updatedLayer = al\<lparr>layer_imageUrl := newLayerUrl, layer_prompt := prompt s\<rparr>
           in (map (\<lambda>l. if layer_id l = layer_id al then updatedLayer else l) (currentLayers s),
               layer_id al))
      | None \<Rightarrow>
          (let newLayer = \<lparr>layer_id = toString (now env), layer_imageUrl = newLayerUrl,
                            layer_prompt = prompt s\<rparr>
           in (currentLayers s @ [newLayer], layer_id newLayer)))"

text \<open>\<open>setLoadingMessage(message); setError(null)\<close>, the two calls before each \<open>try\<close>.\<close>

definition startLoading :: "string \<Rightarrow> App \<Rightarrow> App" where
  "startLoading message s = s\<lparr>loadingMessage := Some message, error := None\<rparr>"

text \<open>The \<open>try\<close> block of \<open>handleGenerate\<close>, entered in state \<open>s1\<close> with current entry \<open>st\<close>.\<close>

definition handleGenerate_try :: "Env \<Rightarrow> AppState \<Rightarrow> App \<Rightarrow> progress" where
  "handleGenerate_try env st s1 =
     (case generateEditedImage env (imageFile st) (prompt s1)
             (if hasPointSelection s1 then editHotspot s1 else None)
             (if hasBrushSelection s1 then maskImage s1 else None) of
        Pending \<Rightarrow> Stuck s1
      | Throws e \<Rightarrow> Failed e s1
      | Returns newLayerUrl \<Rightarrow>
          (let (ls, newActiveLayerId) = newLayers env s1 newLayerUrl;
               s2 = addImageToHistory (st\<lparr>layers := ls\<rparr>) s1
           in Done (s2\<lparr>activeLayerId := Some newActiveLayerId, editHotspot := None,
                       displayHotspot := None\<rparr>)))"

text \<open>\<open>catch\<close> and \<open>finally\<close> as the three mutating handlers write them.\<close>

definition recover :: "string \<Rightarrow> progress \<Rightarrow> App" where
  "recover failure p =
     (case p of
        Done s' \<Rightarrow> s'\<lparr>loadingMessage := None\<rparr>
      | Failed e s' \<Rightarrow> s'\<lparr>error := Some (failure @ errorMessage e), loadingMessage := None\<rparr>
      | Stuck s' \<Rightarrow> s')"

definition handleGenerate :: "Env \<Rightarrow> App \<Rightarrow> App" where
  "handleGenerate env s =
     (case currentState s of
        None \<Rightarrow> s\<lparr>error := Some ''No image loaded to edit.''\<rparr>
      | Some st \<Rightarrow>
          if trim (prompt s) = [] then
            s\<lparr>error := Some (if activeLayer s \<noteq> None
                              then ''Please describe your changes to the layer.''
                              else ''Please enter a description for your edit.'')\<rparr>
          else if activeLayer s = None \<and> \<not> hasPointSelection s \<and> \<not> hasBrushSelection s then
            s\<lparr>error := Some ''Please select an area on the image to edit.''\<rparr>
          else
            recover ''Failed to generate the image. ''
              (handleGenerate_try env st
                 (startLoading (if activeLayer s \<noteq> None then ''Updating layer...''
                                else ''Generating new layer...'') s)))"

subsection \<open>Flattening, removal, global edits and crop\<close>

text \<open>
  The loop of \<open>flattenImage\<close> over the layers: each layer image is awaited in turn and
  drawn over the canvas when it loads; \<open>onerror\<close> rejects, which ends the loop.
\<close>

fun drawLayers :: "Env \<Rightarrow> Layer list \<Rightarrow> string list \<Rightarrow> string list option" where
  "drawLayers env [] canvas = Some canvas"
| "drawLayers env (layer # rest) canvas =
     (if loads env (layer_imageUrl layer)
      then drawLayers env rest (canvas @ [layer_imageUrl layer])
      else None)"

text \<open>
  \<open>flattenImage\<close>. The result \<open>None\<close> is the \<open>null\<close> that \<open>currentImageFile!\<close> is when there
  is no current entry. The base image has an \<open>onload\<close> handler only, so a base that does not
  decode leaves the promise pending.
\<close>

definition flattenImage :: "Env \<Rightarrow> App \<Rightarrow> File option outcome" where
  "flattenImage env s =
     (case currentState s of
        None \<Rightarrow> Returns None
      | Some st \<Rightarrow>
          if imageUrl st = [] \<or> length (currentLayers s) = 0 then Returns (Some (imageFile st))
          else if \<not> loads env (imageUrl st) then Pending
          else if \<not> context2d env then Returns (Some (imageFile st))
          else
            (case drawLayers env (currentLayers s) [imageUrl st] of
               None \<Rightarrow> Throws Thrown
             | Some canvas \<Rightarrow>
                 (case dataURLtoFile env (toDataURL env canvas)
                         (''flattened-'' @ toString (now_flatten env) @ ''.png'') of
                    Returns f \<Rightarrow> Returns (Some f)
                  | Throws e \<Rightarrow> Throws e
                  | Pending \<Rightarrow> Pending)))"

text \<open>
  The tail shared by \<open>handleRemove\<close> and \<open>handleApplyGlobalEdit\<close>: the data URL of the
  edited image becomes a file, the file an object URL, and the entry is pushed.
\<close>

definition pushEdited :: "Env \<Rightarrow> string \<Rightarrow> string outcome \<Rightarrow> App \<Rightarrow> progress" where
  "pushEdited env filePrefix edited s1 =
     (case edited of
        Pending \<Rightarrow> Stuck s1
      | Throws e \<Rightarrow> Failed e s1
      | Returns editedImageUrl \<Rightarrow>
          (case dataURLtoFile env editedImageUrl
                  (filePrefix @ toString (now env) @ ''.png'') of
             Pending \<Rightarrow> Stuck s1
           | Throws e \<Rightarrow> Failed e s1
           | Returns newImageFile \<Rightarrow>
               (let (newImageUrl, s2) = createObjectURL s1
                in Done (addImageToHistory
                           \<lparr>imageFile = newImageFile, imageUrl = newImageUrl, layers = []\<rparr>
                           s2))))"

definition handleRemove_try :: "Env \<Rightarrow> string \<Rightarrow> App \<Rightarrow> progress" where
  "handleRemove_try env maskUrl s1 =
     (case flattenImage env s1 of
        Pending \<Rightarrow> Stuck s1
      | Throws e \<Rightarrow> Failed e s1
      | Returns fileToEdit \<Rightarrow>
          (case pushEdited env ''removed-'' (removeObjectInpainting env fileToEdit maskUrl) s1 of
             Done s2 \<Rightarrow>
               Done (s2\<lparr>activeLayerId := None, editHotspot := None, displayHotspot := None,
                         maskImage := None\<rparr>)
           | other \<Rightarrow> other))"

definition handleRemove :: "Env \<Rightarrow> App \<Rightarrow> App" where
  "handleRemove env s =
     (if currentState s = None \<or> \<not> truthy (maskImage s) then
        s\<lparr>error := Some ''Please use the brush to select an area to remove.''\<rparr>
      else
        recover ''Failed to remove the object. ''
          (handleRemove_try env (the (maskImage s))
             (startLoading ''Removing selected object...'' s)))"

definition handleApplyGlobalEdit_try ::
  "Env \<Rightarrow> (File option \<Rightarrow> string \<Rightarrow> string outcome) \<Rightarrow> string \<Rightarrow> App \<Rightarrow> progress" where
  "handleApplyGlobalEdit_try env editFunction p s1 =
     (case flattenImage env s1 of
        Pending \<Rightarrow> Stuck s1
      | Throws e \<Rightarrow> Failed e s1
      | Returns fileToEdit \<Rightarrow> pushEdited env ''edited-'' (editFunction fileToEdit p) s1)"

definition handleApplyGlobalEdit ::
  "Env \<Rightarrow> (File option \<Rightarrow> string \<Rightarrow> string outcome) \<Rightarrow> string \<Rightarrow> string \<Rightarrow> App \<Rightarrow> App" where
  "handleApplyGlobalEdit env editFunction p message s =
     (case currentState s of
        None \<Rightarrow> s\<lparr>error := Some ''No image loaded to apply an edit to.''\<rparr>
      | Some st \<Rightarrow>
          recover ''Failed to apply the edit. ''
            (handleApplyGlobalEdit_try env editFunction p (startLoading message s)))"

text \<open>
  \<open>handleApplyCrop\<close> awaits \<open>flattenImage\<close> outside of any \<open>try\<close>, and the rest runs in the
  \<open>onload\<close> callback of an image: where one of them throws or never fires, the handler has
  simply stopped in the state reached so far. The pixels of the cropped canvas are given
  by \<open>crop_toDataURL\<close> from the flattened source and the crop rectangle.
\<close>

definition handleApplyCrop :: "Env \<Rightarrow> App \<Rightarrow> App" where
  "handleApplyCrop env s =
     (case completedCrop s of
        None \<Rightarrow> s\<lparr>error := Some ''Please select an area to crop.''\<rparr>
      | Some c \<Rightarrow>
          if \<not> imgMounted env then s\<lparr>error := Some ''Please select an area to crop.''\<rparr>
          else
            (let s1 = s\<lparr>loadingMessage := Some ''Applying crop...''\<rparr> in
             case flattenImage env s1 of
               Pending \<Rightarrow> s1
             | Throws e \<Rightarrow> s1
             | Returns None \<Rightarrow> s1
             | Returns (Some flattenedFile) \<Rightarrow>
                 (let (flattenedUrl, s2) = createObjectURL s1 in
                  if \<not> loads env flattenedUrl then s2
                  else if \<not> crop_context2d env then
                    s2\<lparr>error := Some ''Could not process the crop.'', loadingMessage := None,
                       revoked := revoked s2 @ [flattenedUrl]\<rparr>
                  else
                    (let s3 = s2\<lparr>revoked := revoked s2 @ [flattenedUrl]\<rparr> in
                     case dataURLtoFile env (crop_toDataURL env flattenedUrl c)
                            (''cropped-'' @ toString (now env) @ ''.png'') of
                       Returns newImageFile \<Rightarrow>
                         (let (newImageUrl, s4) = createObjectURL s3
                          in (addImageToHistory
                                \<lparr>imageFile = newImageFile, imageUrl = newImageUrl, layers = []\<rparr>
                                s4)\<lparr>loadingMessage := None\<rparr>)
                     | _ \<Rightarrow> s3))))"

subsection \<open>Display to native coordinates\<close>

text \<open>
  Division and multiplication of JavaScript numbers, and \<open>Math.round\<close> (to the nearest
  integer, a tie going up). A finite number divided by zero is an infinity, or \<open>NaN\<close> for
  \<open>0 / 0\<close>; the zero divisors that occur are element sizes, which are never negative zero.
\<close>

fun js_div :: "jsnum \<Rightarrow> jsnum \<Rightarrow> jsnum" where
  "js_div (Fin a) (Fin b) =
     (if b = 0 then (if a = 0 then NaN else if 0 < a then PosInf else NegInf)
      else Fin (a / b))"
| "js_div (Fin a) PosInf = Fin 0"
| "js_div (Fin a) NegInf = Fin 0"
| "js_div PosInf (Fin b) = (if b < 0 then NegInf else PosInf)"
| "js_div NegInf (Fin b) = (if b < 0 then PosInf else NegInf)"
| "js_div _ _ = NaN"

fun js_mult :: "jsnum \<Rightarrow> jsnum \<Rightarrow> jsnum" where
  "js_mult (Fin a) (Fin b) = Fin (a * b)"
| "js_mult (Fin a) PosInf = (if a = 0 then NaN else if 0 < a then PosInf else NegInf)"
| "js_mult (Fin a) NegInf = (if a = 0 then NaN else if 0 < a then NegInf else PosInf)"
| "js_mult PosInf (Fin b) = (if b = 0 then NaN else if 0 < b then PosInf else NegInf)"
| "js_mult NegInf (Fin b) = (if b = 0 then NaN else if 0 < b then NegInf else PosInf)"
| "js_mult PosInf PosInf = PosInf"
| "js_mult NegInf NegInf = PosInf"
| "js_mult PosInf NegInf = NegInf"
| "js_mult NegInf PosInf = NegInf"
| "js_mult _ _ = NaN"

fun js_round :: "jsnum \<Rightarrow> jsnum" where
  "js_round (Fin a) = Fin (of_int \<lfloor>a + 1 / 2\<rfloor>)"
| "js_round x = x"

text \<open>
  What \<open>handleBaseImageClick\<close> reads from the mouse event and the clicked \<open>img\<close>: the
  pointer position, the origin of \<open>getBoundingClientRect()\<close>, and the four sizes.
\<close>

record Click =
  clientX :: rat
  clientY :: rat
  rect_left :: rat
  rect_top :: rat
  naturalWidth :: nat
  naturalHeight :: nat
  clientWidth :: nat
  clientHeight :: nat

definition handleBaseImageClick :: "Click \<Rightarrow> App \<Rightarrow> App" where
  "handleBaseImageClick e s =
     (if activeTab s \<noteq> edit \<or> activeTool s \<noteq> point then s
      else
        (let offsetX = clientX e - rect_left e;
             offsetY = clientY e - rect_top e;
             scaleX = js_div (Fin (of_nat (naturalWidth e))) (Fin (of_nat (clientWidth e)));
             scaleY = js_div (Fin (of_nat (naturalHeight e))) (Fin (of_nat (clientHeight e)));
             originalX = js_round (js_mult (Fin offsetX) scaleX);
             originalY = js_round (js_mult (Fin offsetY) scaleY)
         in s\<lparr>editHotspot := Some (originalX, originalY),
               displayHotspot := Some (Fin offsetX, Fin offsetY),
               activeLayerId := None, maskImage := None\<rparr>))"

text \<open>A sequence of history operations, applied from left to right.\<close>

datatype hop = Push AppState | Undo | Redo

fun hstep :: "App \<Rightarrow> hop \<Rightarrow> App" where
  "hstep s (Push e) = addImageToHistory e s"
| "hstep s Undo = handleUndo s"
| "hstep s Redo = handleRedo s"

definition run :: "hop list \<Rightarrow> App \<Rightarrow> App" where
  "run ops s = foldl hstep s ops"

subsection \<open>Sessions\<close>

text \<open>\<open>handleSelectLayer\<close>: selecting a layer switches to the brush tool.\<close>

definition handleSelectLayer :: "string \<Rightarrow> App \<Rightarrow> App" where
  "handleSelectLayer layerId s =
     (if activeTab s \<noteq> edit then s
      else s\<lparr>activeLayerId := Some layerId, editHotspot := None, displayHotspot := None,
             maskImage := None, activeTool := brush\<rparr>)"

text \<open>
  What can happen to the component: each handler, and the plain state setters that the
  panels and the effects call (\<open>setPrompt\<close>, \<open>setActiveTool\<close>, \<open>setActiveTab\<close>,
  \<open>setMaskImage\<close>, \<open>setCrop\<close>, \<open>setCompletedCrop\<close>, \<open>setDisplayHotspot(null)\<close>,
  \<open>setError(null)\<close>). The asynchronous handlers carry the environment they run in. A
  session is a list of such actions applied to the initial state, each handler running to
  its end before the next action.
\<close>

datatype action =
    ImageUpload File
  | Generate Env
  | Remove Env
  | ApplyGlobalEdit Env "File option \<Rightarrow> string \<Rightarrow> string outcome" string string
  | ApplyCrop Env
  | DeleteLayer string
  | UndoAction
  | RedoAction
  | ResetAction
  | UploadNew
  | BaseImageClick Click
  | SelectLayer string
  | SetPrompt string
  | SetActiveTool EditTool
  | SetActiveTab Tab
  | SetMaskImage "string option"
  | SetCrop "PixelCrop option"
  | SetCompletedCrop "PixelCrop option"
  | ClearDisplayHotspot
  | DismissError

fun perform :: "App \<Rightarrow> action \<Rightarrow> App" where
  "perform s (ImageUpload file) = handleImageUpload file s"
| "perform s (Generate env) = handleGenerate env s"
| "perform s (Remove env) = handleRemove env s"
| "perform s (ApplyGlobalEdit env editFunction p message) =
     handleApplyGlobalEdit env editFunction p message s"
| "perform s (ApplyCrop env) = handleApplyCrop env s"
| "perform s (DeleteLayer layerId) = handleDeleteLayer layerId s"
| "perform s UndoAction = handleUndo s"
| "perform s RedoAction = handleRedo s"
| "perform s ResetAction = handleReset s"
| "perform s UploadNew = handleUploadNew s"
| "perform s (BaseImageClick e) = handleBaseImageClick e s"
| "perform s (SelectLayer layerId) = handleSelectLayer layerId s"
| "perform s (SetPrompt p) = s\<lparr>prompt := p\<rparr>"
| "perform s (SetActiveTool t) = s\<lparr>activeTool := t\<rparr>"
| "perform s (SetActiveTab t) = s\<lparr>activeTab := t\<rparr>"
| "perform s (SetMaskImage m) = s\<lparr>maskImage := m\<rparr>"
| "perform s (SetCrop c) = s\<lparr>crop := c\<rparr>"
| "perform s (SetCompletedCrop c) = s\<lparr>completedCrop := c\<rparr>"
| "perform s ClearDisplayHotspot = s\<lparr>displayHotspot := None\<rparr>"
| "perform s DismissError = s\<lparr>error := None\<rparr>"

definition session :: "action list \<Rightarrow> App" where
  "session acts = foldl perform initialApp acts"

text \<open>
  Invariants of a session. In a contiguous list equal elements are neighbours: an element
  that occurs again later is equal to its successor. Every \<open>imageUrl\<close> in the history is
  one that \<open>createObjectURL\<close> has returned. The last entry of a history is fresh when no
  other entry has its \<open>imageUrl\<close>.
\<close>

fun contiguous :: "'a list \<Rightarrow> bool" where
  "contiguous [] = True"
| "contiguous (x # xs) = (contiguous xs \<and> (x \<in> set xs \<longrightarrow> x = hd xs))"

definition known_urls :: "App \<Rightarrow> bool" where
  "known_urls s =
     (\<forall>e \<in> set (history s). imageUrl e \<in> (\<lambda>k. ''blob:'' @ toString k) ` {..<created s})"

definition wellformed :: "App \<Rightarrow> bool" where
  "wellformed s =
     (- 1 \<le> historyIndex s \<and> historyIndex s < int (length (history s)) \<and> known_urls s
      \<and> contiguous (map imageUrl (history s)))"

definition fresh_last :: "App \<Rightarrow> bool" where
  "fresh_last s = (imageUrl (last (history s)) \<notin> set (map imageUrl (butlast (history s))))"

subsection \<open>Concrete states and environments\<close>

text \<open>The values at which the theorems below are instantiated.\<close>

definition file0 :: File where
  "file0 = \<lparr>file_bits = ''p'', file_name = ''a.png'', file_type = ''image/png''\<rparr>"

definition entryA :: AppState where
  "entryA = \<lparr>imageFile = file0, imageUrl = ''blob:0'', layers = []\<rparr>"

definition entryB :: AppState where
  "entryB = \<lparr>imageFile = file0, imageUrl = ''blob:1'', layers = []\<rparr>"

definition entryC :: AppState where
  "entryC = \<lparr>imageFile = file0, imageUrl = ''blob:2'', layers = []\<rparr>"

definition app3 :: App where
  "app3 = initialApp\<lparr>history := [entryA, entryB, entryC], historyIndex := 0, created := 3\<rparr>"

definition app1 :: App where
  "app1 = initialApp\<lparr>history := [entryA], historyIndex := 0, created := 1\<rparr>"

definition layerHat :: Layer where
  "layerHat =
     \<lparr>layer_id = ''7'', layer_imageUrl = ''data:image/png;base64,aGF0'',
      layer_prompt = ''add hat''\<rparr>"

definition entryHat :: AppState where
  "entryHat = \<lparr>imageFile = file0, imageUrl = ''blob:0'', layers = [layerHat]\<rparr>"

definition appHat :: App where
  "appHat = initialApp\<lparr>history := [entryA, entryHat], historyIndex := 1, created := 1\<rparr>"

definition layerBad :: Layer where
  "layerBad =
     \<lparr>layer_id = ''9'', layer_imageUrl = ''data:bad'', layer_prompt = ''add scarf''\<rparr>"

definition entryBad :: AppState where
  "entryBad = \<lparr>imageFile = file0, imageUrl = ''blob:0'', layers = [layerHat, layerBad]\<rparr>"

definition appPoint :: App where
  "appPoint =
     app1\<lparr>prompt := ''add hat'', editHotspot := Some (Fin 100, Fin 50),
          displayHotspot := Some (Fin 50, Fin 25)\<rparr>"

definition appBad :: App where
  "appBad =
     initialApp\<lparr>history := [entryA, entryBad], historyIndex := 1, created := 1,
       activeTool := brush, maskImage := Some ''data:mask'',
       completedCrop := Some \<lparr>crop_x = 0, crop_y = 0, crop_width = 10, crop_height = 10\<rparr>\<rparr>"

text \<open>An environment in which everything succeeds except decoding \<open>data:bad\<close>.\<close>

definition envOk :: Env where
  "envOk =
     \<lparr>now = 7, now_flatten = 5, loads = (\<lambda>u. u \<noteq> ''data:bad''), context2d = True,
      crop_context2d = True,
      toDataURL = (\<lambda>canvas. ''data:image/png;base64,UE5H''),
      crop_toDataURL = (\<lambda>u c. ''data:image/png;base64,Q1JPUA==''),
      atob = (\<lambda>b. Inr b), imgMounted = True,
      generateEditedImage = (\<lambda>f p h m. Returns ''data:image/png;base64,aGF0''),
      removeObjectInpainting = (\<lambda>f m. Returns ''data:image/png;base64,UE5H'')\<rparr>"

text \<open>The generation service rejects; the other services answer with no data URL.\<close>

definition envFail :: Env where
  "envFail =
     envOk\<lparr>generateEditedImage := (\<lambda>f p h m. Throws (Error ''blocked'')),
            removeObjectInpainting := (\<lambda>f m. Returns ''junk'')\<rparr>"

definition junkEdit :: "File option \<Rightarrow> string \<Rightarrow> string outcome" where
  "junkEdit f p = Returns ''junk''"

definition click1 :: Click where
  "click1 =
     \<lparr>clientX = 60, clientY = 45, rect_left = 10, rect_top = 20,
      naturalWidth = 500, naturalHeight = 300, clientWidth = 250, clientHeight = 150\<rparr>"

definition click0 :: Click where
  "click0 =
     \<lparr>clientX = 60, clientY = 45, rect_left = 10, rect_top = 20,
      naturalWidth = 500, naturalHeight = 0, clientWidth = 0, clientHeight = 0\<rparr>"

definition appActive :: App where
  "appActive =
     appHat\<lparr>activeLayerId := Some ''7'', prompt := ''red hat'', activeTool := brush\<rparr>"

definition okEdit :: "File option \<Rightarrow> string \<Rightarrow> string outcome" where
  "okEdit f p = Returns ''data:image/png;base64,UE5H''"

section \<open>Properties\<close>

subsection \<open>Pushing, undo and redo\<close>

lemma slice_prefix: "- 1 \<le> i \<Longrightarrow> slice xs 0 (i + 1) = take (nat (i + 1)) xs"
  by (simp add: slice_def slice_pos_def min_def)

lemma slice_from_suffix: "- 1 \<le> i \<Longrightarrow> slice_from xs (i + 1) = drop (nat (i + 1)) xs"
  by (simp add: slice_from_def slice_pos_def min_def)

text \<open>
  C1. For a history state whose pointer is at least \<open>-1\<close> and any new entry,
  \<open>addImageToHistory\<close> keeps exactly the entries at positions up to the pointer, discards
  the entries strictly after it, calls \<open>URL.revokeObjectURL\<close> on the \<open>imageUrl\<close> of each
  discarded entry (in order), appends the new entry, and sets the pointer to the new last
  index.
\<close>

theorem addImageToHistory_push:
  assumes "- 1 \<le> historyIndex s"
  shows "history (addImageToHistory e s) = take (nat (historyIndex s + 1)) (history s) @ [e]
       \<and> revoked (addImageToHistory e s)
           = revoked s @ map imageUrl (drop (nat (historyIndex s + 1)) (history s))
       \<and> historyIndex (addImageToHistory e s)
           = int (length (history (addImageToHistory e s))) - 1
       \<and> last (history (addImageToHistory e s)) = e"
proof -
  have keep: "slice (history s) 0 (historyIndex s + 1) = take (nat (historyIndex s + 1)) (history s)"
    using assms by (rule slice_prefix)
  have disc: "slice_from (history s) (historyIndex s + 1) = drop (nat (historyIndex s + 1)) (history s)"
    using assms by (rule slice_from_suffix)
  have none: "\<not> historyIndex s < int (length (history s)) - 1
              \<Longrightarrow> drop (nat (historyIndex s + 1)) (history s) = []"
    by simp
  show ?thesis
    using none by (simp add: addImageToHistory_def Let_def keep disc)
qed

theorem addImageToHistory_push_witness:
  "- 1 \<le> historyIndex app3
   \<and> history (addImageToHistory entryB app3) = [entryA, entryB]
   \<and> revoked (addImageToHistory entryB app3) = [''blob:1'', ''blob:2'']
   \<and> historyIndex (addImageToHistory entryB app3) = 1"
  using addImageToHistory_push [of app3 entryB]
  by (simp add: app3_def initialApp_def entryB_def entryC_def)

lemma hstep_range:
  assumes "- 1 \<le> historyIndex s" "historyIndex s \<le> int (length (history s)) - 1"
    "(historyIndex s = - 1) = (history s = [])"
  shows "- 1 \<le> historyIndex (hstep s x) \<and> historyIndex (hstep s x) \<le> int (length (history (hstep s x))) - 1
     \<and> ((historyIndex (hstep s x) = - 1) = (history (hstep s x) = []))"
proof (cases x)
  case (Push e)
  then show ?thesis using assms
    by (simp add: addImageToHistory_def Let_def slice_prefix)
next
  case Undo
  then show ?thesis using assms by (auto simp: handleUndo_def canUndo_def)
next
  case Redo
  then show ?thesis using assms by (auto simp: handleRedo_def canRedo_def)
qed

lemma run_range:
  assumes "- 1 \<le> historyIndex s" "historyIndex s \<le> int (length (history s)) - 1"
    "(historyIndex s = - 1) = (history s = [])"
  shows "- 1 \<le> historyIndex (run ops s) \<and> historyIndex (run ops s) \<le> int (length (history (run ops s))) - 1
     \<and> ((historyIndex (run ops s) = - 1) = (history (run ops s) = []))"
  using assms
proof (induction ops arbitrary: s)
  case Nil
  then show ?case by (simp add: run_def)
next
  case (Cons x xs)
  have "run (x # xs) s = run xs (hstep s x)" by (simp add: run_def)
  then show ?case using Cons.IH [of "hstep s x"] hstep_range [OF Cons.prems, of x] by simp
qed

text \<open>
  C2. Whatever sequence of pushes, undos and redos is applied to the empty store, the
  pointer stays between \<open>-1\<close> and the last index, and it is \<open>-1\<close> exactly when the store
  is empty. \<open>handleUndo\<close> at index 0 and \<open>handleRedo\<close> at the last index return the state
  they were given.
\<close>

theorem pointer_in_range:
  "- 1 \<le> historyIndex (run ops initialApp)
   \<and> historyIndex (run ops initialApp) \<le> int (length (history (run ops initialApp))) - 1
   \<and> ((historyIndex (run ops initialApp) = - 1) = (history (run ops initialApp) = []))
   \<and> (historyIndex t = 0 \<longrightarrow> handleUndo t = t)
   \<and> (historyIndex t = int (length (history t)) - 1 \<longrightarrow> handleRedo t = t)"
proof -
  have "- 1 \<le> historyIndex (run ops initialApp)
   \<and> historyIndex (run ops initialApp) \<le> int (length (history (run ops initialApp))) - 1
   \<and> ((historyIndex (run ops initialApp) = - 1) = (history (run ops initialApp) = []))"
    by (rule run_range) (simp_all add: initialApp_def)
  moreover have "historyIndex t = 0 \<longrightarrow> handleUndo t = t"
    by (simp add: handleUndo_def canUndo_def)
  moreover have "historyIndex t = int (length (history t)) - 1 \<longrightarrow> handleRedo t = t"
    by (simp add: handleRedo_def canRedo_def)
  ultimately show ?thesis by blast
qed

theorem pointer_in_range_witness:
  "historyIndex (run [Push entryA, Push entryB, Undo, Undo, Redo, Redo, Redo] initialApp) = 1
   \<and> length (history (run [Push entryA, Push entryB, Undo, Undo, Redo, Redo, Redo] initialApp)) = 2
   \<and> historyIndex app1 = 0 \<and> handleUndo app1 = app1
   \<and> historyIndex app1 = int (length (history app1)) - 1 \<and> handleRedo app1 = app1"
  using pointer_in_range [of "[Push entryA, Push entryB, Undo, Undo, Redo, Redo, Redo]" app1]
  by (simp add: run_def app1_def initialApp_def addImageToHistory_def Let_def slice_def slice_pos_def
      slice_from_def handleUndo_def handleRedo_def canUndo_def canRedo_def)

lemma currentState_SomeD:
  "currentState s = Some st \<Longrightarrow>
     0 \<le> historyIndex s \<and> historyIndex s < int (length (history s))
     \<and> st = history s ! nat (historyIndex s)"
  by (auto simp: currentState_def split: if_splits)

lemma currentState_cong:
  "history a = history b \<Longrightarrow> historyIndex a = historyIndex b \<Longrightarrow> currentState a = currentState b"
  by (simp add: currentState_def)

lemma push_at_current:
  assumes "currentState s = Some st"
  shows "history (addImageToHistory e s) = take (nat (historyIndex s + 1)) (history s) @ [e]"
    and "historyIndex (addImageToHistory e s) = historyIndex s + 1"
    and "currentState (addImageToHistory e s) = Some e"
    and "history (addImageToHistory e s) ! nat (historyIndex s) = st"
proof -
  from assms have r: "0 \<le> historyIndex s" "historyIndex s < int (length (history s))"
    and st: "st = history s ! nat (historyIndex s)"
    using currentState_SomeD by blast+
  have len: "length (take (nat (historyIndex s + 1)) (history s)) = nat (historyIndex s + 1)"
    using r by simp
  show h: "history (addImageToHistory e s) = take (nat (historyIndex s + 1)) (history s) @ [e]"
    using r by (simp add: addImageToHistory_def Let_def slice_prefix)
  show i: "historyIndex (addImageToHistory e s) = historyIndex s + 1"
    using r by (simp add: addImageToHistory_def Let_def slice_prefix)
  show "currentState (addImageToHistory e s) = Some e"
    using r len by (simp add: currentState_def h i nth_append)
  show "history (addImageToHistory e s) ! nat (historyIndex s) = st"
    using r st by (simp add: h nth_append nat_add_distrib)
qed

text \<open>
  C10. When \<open>layerId\<close> is the id of no layer of the current entry, \<open>handleDeleteLayer\<close>
  still pushes: the new entry equals the current one (so its layer list is the same list),
  the previous entry stays where it was, and the pointer advances by one.
\<close>

theorem delete_unknown_layer:
  assumes "currentState s = Some st" and "\<forall>l \<in> set (layers st). layer_id l \<noteq> layerId"
  shows "historyIndex (handleDeleteLayer layerId s) = historyIndex s + 1
       \<and> history (handleDeleteLayer layerId s) = take (nat (historyIndex s + 1)) (history s) @ [st]
       \<and> currentState (handleDeleteLayer layerId s) = Some st
       \<and> layers (last (history (handleDeleteLayer layerId s))) = layers st
       \<and> history (handleDeleteLayer layerId s) ! nat (historyIndex s) = st"
proof -
  have same: "filter (\<lambda>l. layer_id l \<noteq> layerId) (currentLayers s) = layers st"
    using assms by (simp add: currentLayers_def)
  define s' where "s' = addImageToHistory st s"
  have facts: "history s' = take (nat (historyIndex s + 1)) (history s) @ [st]"
    "historyIndex s' = historyIndex s + 1" "currentState s' = Some st"
    "history s' ! nat (historyIndex s) = st"
    unfolding s'_def using push_at_current [OF assms(1), of st] by simp_all
  have del: "handleDeleteLayer layerId s =
      (if activeLayerId s = Some layerId then s'\<lparr>activeLayerId := None, activeTool := point\<rparr> else s')"
    by (simp add: handleDeleteLayer_def assms(1) same Let_def s'_def)
  show ?thesis
  proof (cases "activeLayerId s = Some layerId")
    case True
    have "currentState (s'\<lparr>activeLayerId := None, activeTool := point\<rparr>) = currentState s'"
      by (rule currentState_cong) simp_all
    with True show ?thesis using facts by (simp add: del)
  next
    case False
    then show ?thesis using facts by (simp add: del)
  qed
qed

theorem delete_unknown_layer_witness:
  "currentState appHat = Some entryHat
   \<and> map layer_id (layers entryHat) = [''7'']
   \<and> historyIndex (handleDeleteLayer ''8'' appHat) = 2
   \<and> history (handleDeleteLayer ''8'' appHat) = [entryA, entryHat, entryHat]"
proof -
  have c: "currentState appHat = Some entryHat"
    by (simp add: currentState_def appHat_def initialApp_def)
  have n: "\<forall>l \<in> set (layers entryHat). layer_id l \<noteq> ''8''"
    by (simp add: entryHat_def layerHat_def)
  show ?thesis
    using delete_unknown_layer [OF c n] c
    by (simp add: appHat_def initialApp_def entryHat_def layerHat_def)
qed

subsection \<open>Failed operations\<close>

lemma recover_Failed:
  "history (recover msg (Failed e s')) = history s'
   \<and> historyIndex (recover msg (Failed e s')) = historyIndex s'"
  by (simp add: recover_def)

lemma startLoading_history [simp]:
  "history (startLoading m s) = history s" "historyIndex (startLoading m s) = historyIndex s"
  by (simp_all add: startLoading_def)

lemma handleGenerate_try_Failed:
  "handleGenerate_try env st s1 = Failed e s' \<Longrightarrow> s' = s1"
  by (auto simp: handleGenerate_try_def Let_def split: outcome.splits prod.splits)

lemma pushEdited_Failed: "pushEdited env pre edited s1 = Failed e s' \<Longrightarrow> s' = s1"
  by (auto simp: pushEdited_def Let_def split: outcome.splits prod.splits)

lemma handleRemove_try_Failed:
  "handleRemove_try env m s1 = Failed e s' \<Longrightarrow> s' = s1"
  by (auto simp: handleRemove_try_def split: outcome.splits progress.splits dest: pushEdited_Failed)

lemma handleApplyGlobalEdit_try_Failed:
  "handleApplyGlobalEdit_try env f p s1 = Failed e s' \<Longrightarrow> s' = s1"
  by (auto simp: handleApplyGlobalEdit_try_def split: outcome.splits dest: pushEdited_Failed)

text \<open>
  C3. When the \<open>try\<close> block of generate-layer, object removal or a global edit fails (the
  service call rejects, flattening rejects, or the returned data URL cannot be turned into
  a file), the handler ends with the history array and the pointer it started with: no
  entry is pushed.
\<close>

theorem failed_operation_keeps_history:
  "(currentState s = Some st \<and>
      handleGenerate_try env st
        (startLoading (if activeLayer s \<noteq> None then ''Updating layer...''
                       else ''Generating new layer...'') s) = Failed e1 s1
    \<longrightarrow> history (handleGenerate env s) = history s
        \<and> historyIndex (handleGenerate env s) = historyIndex s)
   \<and> (handleRemove_try env (the (maskImage s)) (startLoading ''Removing selected object...'' s)
        = Failed e2 s2
    \<longrightarrow> history (handleRemove env s) = history s
        \<and> historyIndex (handleRemove env s) = historyIndex s)
   \<and> (handleApplyGlobalEdit_try env editFunction p (startLoading message s) = Failed e3 s3
    \<longrightarrow> history (handleApplyGlobalEdit env editFunction p message s) = history s
        \<and> historyIndex (handleApplyGlobalEdit env editFunction p message s) = historyIndex s)"
proof (intro conjI impI)
  assume a: "currentState s = Some st \<and>
      handleGenerate_try env st
        (startLoading (if activeLayer s \<noteq> None then ''Updating layer...''
                       else ''Generating new layer...'') s) = Failed e1 s1"
  then have "s1 = startLoading (if activeLayer s \<noteq> None then ''Updating layer...''
                       else ''Generating new layer...'') s"
    using handleGenerate_try_Failed by blast
  with a show "history (handleGenerate env s) = history s"
    by (simp add: handleGenerate_def recover_def)
  from a \<open>s1 = _\<close> show "historyIndex (handleGenerate env s) = historyIndex s"
    by (simp add: handleGenerate_def recover_def)
next
  assume a: "handleRemove_try env (the (maskImage s)) (startLoading ''Removing selected object...'' s)
        = Failed e2 s2"
  then have "s2 = startLoading ''Removing selected object...'' s"
    by (rule handleRemove_try_Failed)
  with a show "history (handleRemove env s) = history s"
    by (simp add: handleRemove_def recover_def)
  from a \<open>s2 = _\<close> show "historyIndex (handleRemove env s) = historyIndex s"
    by (simp add: handleRemove_def recover_def)
next
  assume a: "handleApplyGlobalEdit_try env editFunction p (startLoading message s) = Failed e3 s3"
  then have "s3 = startLoading message s"
    by (rule handleApplyGlobalEdit_try_Failed)
  with a show "history (handleApplyGlobalEdit env editFunction p message s) = history s"
    by (simp add: handleApplyGlobalEdit_def recover_def split: option.splits)
  from a \<open>s3 = _\<close> show "historyIndex (handleApplyGlobalEdit env editFunction p message s) = historyIndex s"
    by (simp add: handleApplyGlobalEdit_def recover_def split: option.splits)
qed

lemma flatten_appBad: "flattenImage envFail (startLoading m appBad) = Throws Thrown"
proof -
  have c: "currentState (startLoading m appBad) = Some entryBad"
    by (simp add: currentState_def appBad_def initialApp_def startLoading_def)
  show ?thesis
    by (simp add: flattenImage_def c currentLayers_def entryBad_def layerHat_def layerBad_def
        envFail_def envOk_def)
qed

lemma flatten_app1: "flattenImage envFail (startLoading m app1) = Returns (Some file0)"
proof -
  have c: "currentState (startLoading m app1) = Some entryA"
    by (simp add: currentState_def app1_def initialApp_def startLoading_def)
  show ?thesis
    by (simp add: flattenImage_def c currentLayers_def entryA_def)
qed

theorem failed_operation_keeps_history_witness:
  "currentState appPoint = Some entryA
   \<and> handleGenerate_try envFail entryA (startLoading ''Generating new layer...'' appPoint)
       = Failed (Error ''blocked'') (startLoading ''Generating new layer...'' appPoint)
   \<and> history (handleGenerate envFail appPoint) = [entryA]
   \<and> historyIndex (handleGenerate envFail appPoint) = 0
   \<and> handleRemove_try envFail ''data:mask'' (startLoading ''Removing selected object...'' appBad)
       = Failed Thrown (startLoading ''Removing selected object...'' appBad)
   \<and> history (handleRemove envFail appBad) = [entryA, entryBad]
   \<and> historyIndex (handleRemove envFail appBad) = 1
   \<and> handleApplyGlobalEdit_try envFail junkEdit ''sepia'' (startLoading ''Applying filter...'' app1)
       = Failed (Error ''Invalid data URL'') (startLoading ''Applying filter...'' app1)
   \<and> history (handleApplyGlobalEdit envFail junkEdit ''sepia'' ''Applying filter...'' app1) = [entryA]
   \<and> historyIndex (handleApplyGlobalEdit envFail junkEdit ''sepia'' ''Applying filter...'' app1) = 0"
proof -
  have c: "currentState appPoint = Some entryA"
    by (simp add: currentState_def appPoint_def app1_def initialApp_def)
  have n: "activeLayer appPoint = None"
    by (simp add: activeLayer_def appPoint_def app1_def initialApp_def)
  have w1: "handleGenerate_try envFail entryA (startLoading ''Generating new layer...'' appPoint)
      = Failed (Error ''blocked'') (startLoading ''Generating new layer...'' appPoint)"
    by (simp add: handleGenerate_try_def envFail_def)
  have w2: "handleRemove_try envFail ''data:mask'' (startLoading ''Removing selected object...'' appBad)
      = Failed Thrown (startLoading ''Removing selected object...'' appBad)"
    by (simp add: handleRemove_try_def flatten_appBad)
  have m: "the (maskImage appBad) = ''data:mask''"
    by (simp add: appBad_def)
  have w3: "handleApplyGlobalEdit_try envFail junkEdit ''sepia'' (startLoading ''Applying filter...'' app1)
      = Failed (Error ''Invalid data URL'') (startLoading ''Applying filter...'' app1)"
    by (simp add: handleApplyGlobalEdit_try_def flatten_app1 pushEdited_def junkEdit_def
        dataURLtoFile_def)
  show ?thesis
    using failed_operation_keeps_history [of appPoint entryA envFail "Error ''blocked''"
        "startLoading ''Generating new layer...'' appPoint"]
      failed_operation_keeps_history [of appBad _ envFail _ _ Thrown
        "startLoading ''Removing selected object...'' appBad"]
      failed_operation_keeps_history [of app1 _ envFail _ _ _ _ junkEdit "''sepia''"
        "''Applying filter...''" "Error ''Invalid data URL''"
        "startLoading ''Applying filter...'' app1"]
      c n w1 w2 w3 m
    by (simp add: appPoint_def appBad_def app1_def initialApp_def)
qed

subsection \<open>Reset and new upload\<close>

text \<open>
  C6, as stated, fails: on a store of three entries \<open>handleReset\<close> leaves three entries,
  and neither \<open>handleReset\<close> nor \<open>handleUploadNew\<close> revokes a URL.
\<close>

theorem reset_counterexample:
  "length (history (handleReset app3)) = 3
   \<and> revoked (handleReset app3) = []
   \<and> revoked (handleUploadNew app3) = []"
  by (simp add: handleReset_def handleUploadNew_def app3_def initialApp_def)

text \<open>
  C6, amended. \<open>handleUploadNew\<close> empties the store and sets the pointer to \<open>-1\<close>.
  \<open>handleReset\<close> keeps every entry and revokes nothing; on a non-empty store it moves the
  pointer to index 0, and on the empty store it does nothing.
\<close>

theorem reset_and_uploadNew:
  "history (handleUploadNew s) = [] \<and> historyIndex (handleUploadNew s) = - 1
   \<and> history (handleReset s) = history s
   \<and> revoked (handleReset s) = revoked s
   \<and> (history s \<noteq> [] \<longrightarrow> historyIndex (handleReset s) = 0)
   \<and> (history s = [] \<longrightarrow> handleReset s = s)"
  by (simp add: handleReset_def handleUploadNew_def)

theorem reset_and_uploadNew_witness:
  "history app3 \<noteq> [] \<and> historyIndex (handleReset app3) = 0
   \<and> history (handleReset app3) = [entryA, entryB, entryC]
   \<and> history initialApp = [] \<and> handleReset initialApp = initialApp
   \<and> history (handleUploadNew app3) = []"
  using reset_and_uploadNew [of app3] reset_and_uploadNew [of initialApp]
  by (simp add: app3_def initialApp_def)

subsection \<open>Display to native coordinates\<close>



text \<open>
  C9, as stated, fails: a click on an image displayed with width and height 0 stores the
  hotspot \<open>(Infinity, NaN)\<close> and leaves the error message as it was.
\<close>

theorem zero_size_counterexample:
  "clientWidth click0 = 0 \<and> clientHeight click0 = 0
   \<and> editHotspot (handleBaseImageClick click0 app1) = Some (PosInf, NaN)
   \<and> error (handleBaseImageClick click0 app1) = error app1"
  by (simp add: handleBaseImageClick_def Let_def click0_def app1_def initialApp_def)

text \<open>
  C9, amended. With the edit tab and the point tool active, a click always stores a
  hotspot and signals no error (the error message, the loading message and the history
  are unchanged); where the displayed size is zero along an axis, the coordinate stored
  for that axis is \<open>Infinity\<close>, \<open>-Infinity\<close> or \<open>NaN\<close>.
\<close>

theorem zero_size_no_error:
  assumes "activeTab s = edit" and "activeTool s = point"
  shows "\<exists>x y. editHotspot (handleBaseImageClick e s) = Some (x, y)
           \<and> (clientWidth e = 0 \<longrightarrow> x \<in> {PosInf, NegInf, NaN})
           \<and> (clientHeight e = 0 \<longrightarrow> y \<in> {PosInf, NegInf, NaN})
           \<and> error (handleBaseImageClick e s) = error s
           \<and> loadingMessage (handleBaseImageClick e s) = loadingMessage s
           \<and> history (handleBaseImageClick e s) = history s"
  using assms by (simp add: handleBaseImageClick_def Let_def)

theorem zero_size_no_error_witness:
  "activeTab app1 = edit \<and> activeTool app1 = point
   \<and> clientWidth click0 = 0 \<and> clientHeight click0 = 0
   \<and> (\<exists>x y. editHotspot (handleBaseImageClick click0 app1) = Some (x, y)
         \<and> x \<in> {PosInf, NegInf, NaN} \<and> y \<in> {PosInf, NegInf, NaN})
   \<and> error (handleBaseImageClick click0 app1) = None"
proof -
  have g: "activeTab app1 = edit" "activeTool app1 = point"
    by (simp_all add: app1_def initialApp_def)
  have z: "clientWidth click0 = 0" "clientHeight click0 = 0"
    by (simp_all add: click0_def)
  have e: "error app1 = None"
    by (simp add: app1_def initialApp_def)
  show ?thesis
    using zero_size_no_error [OF g, of click0] g z e by auto
qed

subsection \<open>Layer generation\<close>

lemma startLoading_fields [simp]:
  "prompt (startLoading m s) = prompt s"
  "editHotspot (startLoading m s) = editHotspot s"
  "maskImage (startLoading m s) = maskImage s"
  "activeLayerId (startLoading m s) = activeLayerId s"
  "activeTool (startLoading m s) = activeTool s"
  by (simp_all add: startLoading_def)

lemma startLoading_currentState [simp]: "currentState (startLoading m s) = currentState s"
  by (rule currentState_cong) simp_all

lemma startLoading_currentLayers [simp]: "currentLayers (startLoading m s) = currentLayers s"
  by (simp add: currentLayers_def)

lemma startLoading_activeLayer [simp]: "activeLayer (startLoading m s) = activeLayer s"
  by (simp add: activeLayer_def split: option.splits)

lemma startLoading_selection [simp]:
  "hasPointSelection (startLoading m s) = hasPointSelection s"
  "hasBrushSelection (startLoading m s) = hasBrushSelection s"
  by (simp_all add: hasPointSelection_def hasBrushSelection_def)

lemma newLayers_startLoading [simp]:
  "newLayers env (startLoading m s) url = newLayers env s url"
  by (simp add: newLayers_def split: option.splits)

lemma handleGenerate_success:
  assumes "currentState s = Some st" and "trim (prompt s) \<noteq> []"
    and "activeLayer s \<noteq> None \<or> hasPointSelection s \<or> hasBrushSelection s"
    and "generateEditedImage env (imageFile st) (prompt s)
           (if hasPointSelection s then editHotspot s else None)
           (if hasBrushSelection s then maskImage s else None) = Returns url"
  shows "handleGenerate env s =
           (addImageToHistory (st\<lparr>layers := fst (newLayers env s url)\<rparr>)
              (startLoading (if activeLayer s \<noteq> None then ''Updating layer...''
                             else ''Generating new layer...'') s))
           \<lparr>activeLayerId := Some (snd (newLayers env s url)), editHotspot := None,
             displayHotspot := None, loadingMessage := None\<rparr>"
proof -
  define m where "m = (if activeLayer s \<noteq> None then ''Updating layer...''
                       else ''Generating new layer...'')"
  have g: "\<not> (activeLayer s = None \<and> \<not> hasPointSelection s \<and> \<not> hasBrushSelection s)"
    using assms(3) by blast
  have call: "generateEditedImage env (imageFile st) (prompt (startLoading m s))
           (if hasPointSelection (startLoading m s) then editHotspot (startLoading m s) else None)
           (if hasBrushSelection (startLoading m s) then maskImage (startLoading m s) else None)
         = Returns url"
    using assms(4) by (simp only: startLoading_fields startLoading_selection)
  have t: "handleGenerate_try env st (startLoading m s) =
      Done ((addImageToHistory (st\<lparr>layers := fst (newLayers env s url)\<rparr>) (startLoading m s))
              \<lparr>activeLayerId := Some (snd (newLayers env s url)), editHotspot := None,
                displayHotspot := None\<rparr>)"
    unfolding handleGenerate_try_def call
    by (simp add: Let_def case_prod_beta)
  have hg: "handleGenerate env s
      = recover ''Failed to generate the image. '' (handleGenerate_try env st (startLoading m s))"
    unfolding m_def using assms(1,2) by (simp add: handleGenerate_def g)
  show ?thesis
    unfolding hg t by (simp add: recover_def m_def)
qed

lemma generate_pushes:
  assumes "currentState s = Some st" and "trim (prompt s) \<noteq> []"
    and "activeLayer s \<noteq> None \<or> hasPointSelection s \<or> hasBrushSelection s"
    and "generateEditedImage env (imageFile st) (prompt s)
           (if hasPointSelection s then editHotspot s else None)
           (if hasBrushSelection s then maskImage s else None) = Returns url"
  shows "history (handleGenerate env s)
           = take (nat (historyIndex s + 1)) (history s) @ [st\<lparr>layers := fst (newLayers env s url)\<rparr>]"
    and "historyIndex (handleGenerate env s) = historyIndex s + 1"
    and "currentState (handleGenerate env s) = Some (st\<lparr>layers := fst (newLayers env s url)\<rparr>)"
    and "history (handleGenerate env s) ! nat (historyIndex s) = st"
proof -
  let ?m = "if activeLayer s \<noteq> None then ''Updating layer...'' else ''Generating new layer...''"
  let ?e = "st\<lparr>layers := fst (newLayers env s url)\<rparr>"
  have c: "currentState (startLoading ?m s) = Some st"
    using assms(1) by simp
  note p = push_at_current [OF c, of ?e]
  note eq = handleGenerate_success [OF assms]
  have hi: "history (handleGenerate env s) = history (addImageToHistory ?e (startLoading ?m s))"
    "historyIndex (handleGenerate env s) = historyIndex (addImageToHistory ?e (startLoading ?m s))"
    by (simp_all add: eq)
  show "history (handleGenerate env s) = take (nat (historyIndex s + 1)) (history s) @ [?e]"
    using p(1) by (simp add: hi startLoading_def)
  show "historyIndex (handleGenerate env s) = historyIndex s + 1"
    using p(2) by (simp add: hi startLoading_def)
  have "currentState (handleGenerate env s) = currentState (addImageToHistory ?e (startLoading ?m s))"
    by (rule currentState_cong) (simp_all add: hi)
  then show "currentState (handleGenerate env s) = Some ?e"
    using p(3) by simp
  show "history (handleGenerate env s) ! nat (historyIndex s) = st"
    using p(4) by (simp add: hi startLoading_def)
qed

lemma undo_redo_after_push:
  assumes "0 \<le> i" and "historyIndex s' = i + 1" and "length (history s') = nat i + 2"
  shows "history (handleUndo s') = history s'" and "historyIndex (handleUndo s') = i"
    and "history (handleRedo (handleUndo s')) = history s'"
    and "historyIndex (handleRedo (handleUndo s')) = historyIndex s'"
  using assms by (simp_all add: handleUndo_def handleRedo_def canUndo_def canRedo_def)



lemma toString_digit [simp]: "toString 0 = ''0''" "toString 7 = ''7''"
  by (simp_all add: toString.simps)

lemma upload_app1: "handleImageUpload file0 initialApp = app1"
  by (simp add: handleImageUpload_def createObjectURL_def initialApp_def app1_def entryA_def)


subsection \<open>Flattening and crop\<close>

lemma drawLayers_None:
  "(drawLayers env ls canvas = None) = (\<exists>l \<in> set ls. \<not> loads env (layer_imageUrl l))"
  by (induction ls arbitrary: canvas) auto

text \<open>
  Once the base image has loaded and the canvas has a context, a layer that does not
  decode makes \<open>flattenImage\<close> reject: no file is returned.
\<close>

lemma flattenImage_undecodable_layer:
  assumes "currentState s = Some st" and "imageUrl st \<noteq> []"
    and "loads env (imageUrl st)" and "context2d env"
    and "\<exists>l \<in> set (layers st). \<not> loads env (layer_imageUrl l)"
  shows "flattenImage env s = Throws Thrown"
proof -
  have cl: "currentLayers s = layers st"
    using assms(1) by (simp add: currentLayers_def)
  have ne: "layers st \<noteq> []"
    using assms(5) by auto
  have "drawLayers env (layers st) [imageUrl st] = None"
    using assms(5) by (simp add: drawLayers_None)
  then show ?thesis
    using assms(1-4) ne by (simp add: flattenImage_def cl)
qed

text \<open>A rejected flatten leaves the history of \<open>handleApplyCrop\<close> as it was.\<close>

lemma handleApplyCrop_history_on_rejection:
  assumes "flattenImage env (s\<lparr>loadingMessage := Some ''Applying crop...''\<rparr>) = Throws e"
  shows "history (handleApplyCrop env s) = history s
       \<and> historyIndex (handleApplyCrop env s) = historyIndex s"
  using assms by (simp add: handleApplyCrop_def Let_def split: option.splits)

text \<open>
  C4 at a concrete input: the current entry has a layer whose image does not decode and a
  crop is selected. \<open>flattenImage\<close> rejects, and \<open>handleApplyCrop\<close>, which awaits it outside
  of any \<open>try\<close>, stops there: the loading message \<open>Applying crop...\<close> stays set and no
  error message is stored. \<open>handleApplyGlobalEdit\<close> on the same state catches the rejection,
  stores the error message and clears the loading message.
\<close>

theorem crop_not_recovered:
  "flattenImage envOk (appBad\<lparr>loadingMessage := Some ''Applying crop...''\<rparr>) = Throws Thrown
   \<and> handleApplyCrop envOk appBad = appBad\<lparr>loadingMessage := Some ''Applying crop...''\<rparr>
   \<and> error (handleApplyCrop envOk appBad) = None
   \<and> handleApplyGlobalEdit envOk junkEdit ''sepia'' ''Applying filter...'' appBad
       = appBad\<lparr>error := Some ''Failed to apply the edit. An unknown error occurred.''\<rparr>"
proof -
  have l: "layers entryBad = [layerHat, layerBad]" "imageUrl entryBad = ''blob:0''"
    by (simp_all add: entryBad_def)
  have bad: "\<exists>l \<in> set (layers entryBad). \<not> loads envOk (layer_imageUrl l)"
    by (simp add: l layerBad_def envOk_def)
  have ok: "imageUrl entryBad \<noteq> []" "loads envOk (imageUrl entryBad)" "context2d envOk"
    by (simp_all add: l envOk_def)
  have c: "currentState (appBad\<lparr>loadingMessage := Some m\<rparr>) = Some entryBad"
    "currentState (startLoading m appBad) = Some entryBad" for m
    by (simp_all add: currentState_def appBad_def initialApp_def startLoading_def)
  have f1: "flattenImage envOk (appBad\<lparr>loadingMessage := Some ''Applying crop...''\<rparr>) = Throws Thrown"
    using c(1) ok bad by (rule flattenImage_undecodable_layer)
  have f2: "flattenImage envOk (startLoading ''Applying filter...'' appBad) = Throws Thrown"
    using c(2) ok bad by (rule flattenImage_undecodable_layer)
  have cc: "completedCrop appBad = Some \<lparr>crop_x = 0, crop_y = 0, crop_width = 10, crop_height = 10\<rparr>"
    by (simp add: appBad_def)
  have m: "imgMounted envOk" by (simp add: envOk_def)
  have crop: "handleApplyCrop envOk appBad = appBad\<lparr>loadingMessage := Some ''Applying crop...''\<rparr>"
    by (simp add: handleApplyCrop_def cc m f1)
  have e: "error appBad = None" "loadingMessage appBad = None"
    by (simp_all add: appBad_def initialApp_def)
  have cb: "currentState appBad = Some entryBad"
    by (simp add: currentState_def appBad_def initialApp_def)
  have g1: "handleApplyGlobalEdit envOk junkEdit ''sepia'' ''Applying filter...'' appBad
       = recover ''Failed to apply the edit. '' (Failed Thrown (startLoading ''Applying filter...'' appBad))"
    by (simp add: handleApplyGlobalEdit_def cb handleApplyGlobalEdit_try_def f2)
  have glob: "handleApplyGlobalEdit envOk junkEdit ''sepia'' ''Applying filter...'' appBad
       = appBad\<lparr>error := Some ''Failed to apply the edit. An unknown error occurred.''\<rparr>"
    unfolding g1 by (simp add: recover_def startLoading_def appBad_def initialApp_def)
  show ?thesis
    using f1 crop glob e by simp
qed

subsection \<open>Shared base rasters\<close>

lemma digit_inj:
  "a < 10 \<Longrightarrow> b < 10 \<Longrightarrow> ''0123456789'' ! a = ''0123456789'' ! b \<Longrightarrow> a = b"
proof -
  assume a: "a < 10" and b: "b < 10" and e: "''0123456789'' ! a = ''0123456789'' ! b"
  have d: "distinct ''0123456789''" by simp
  have l: "length ''0123456789'' = 10" by simp
  show "a = b" using d a b e l by (metis nth_eq_iff_index_eq)
qed

lemma toString_small: "n < 10 \<Longrightarrow> toString n = [''0123456789'' ! n]"
  by (simp add: toString.simps)

lemma toString_large:
  "\<not> n < 10 \<Longrightarrow> toString n = toString (n div 10) @ [''0123456789'' ! (n mod 10)]"
  by (subst toString.simps) simp

lemma toString_nonempty: "toString n \<noteq> []"
  by (cases "n < 10") (simp_all add: toString_small toString_large)

lemma toString_inj: "toString m = toString n \<Longrightarrow> m = n"
proof (induction n arbitrary: m rule: less_induct)
  case (less n)
  show ?case
  proof (cases "n < 10")
    case n: True
    show ?thesis
    proof (cases "m < 10")
      case True
      with n less.prems show ?thesis
        by (simp add: toString_small digit_inj)
    next
      case False
      with n less.prems show ?thesis
        using toString_nonempty [of "m div 10"] by (simp add: toString_small toString_large)
    qed
  next
    case n: False
    show ?thesis
    proof (cases "m < 10")
      case True
      with n less.prems show ?thesis
        using toString_nonempty [of "n div 10"] by (simp add: toString_small toString_large)
    next
      case False
      with n less.prems have "toString (m div 10) = toString (n div 10)"
        and d: "''0123456789'' ! (m mod 10) = ''0123456789'' ! (n mod 10)"
        by (simp_all add: toString_large)
      moreover have "n div 10 < n" using n by simp
      ultimately have q: "m div 10 = n div 10" using less.IH by blast
      have r: "m mod 10 = n mod 10" using d by (intro digit_inj) simp_all
      show ?thesis using q r by (metis div_mult_mod_eq)
    qed
  qed
qed

lemma contiguous_take: "contiguous xs \<Longrightarrow> contiguous (take n xs)"
proof (induction xs arbitrary: n)
  case Nil
  then show ?case by simp
next
  case (Cons x xs)
  show ?case
  proof (cases n)
    case 0
    then show ?thesis by simp
  next
    case (Suc k)
    have "x \<in> set (take k xs) \<Longrightarrow> x = hd (take k xs)"
    proof -
      assume m: "x \<in> set (take k xs)"
      then have "x \<in> set xs" by (rule in_set_takeD)
      with Cons.prems have "x = hd xs" by simp
      moreover from m have "hd (take k xs) = hd xs" by (cases k; cases xs) simp_all
      ultimately show ?thesis by simp
    qed
    with Cons Suc show ?thesis by simp
  qed
qed

lemma contiguous_snoc_fresh: "contiguous xs \<Longrightarrow> y \<notin> set xs \<Longrightarrow> contiguous (xs @ [y])"
  by (induction xs) (auto simp: hd_append)

lemma contiguous_snoc_last: "contiguous xs \<Longrightarrow> xs \<noteq> [] \<Longrightarrow> contiguous (xs @ [last xs])"
  by (induction xs) (auto simp: hd_append)

lemma contiguous_nth:
  "contiguous xs \<Longrightarrow> i \<le> j \<Longrightarrow> j \<le> k \<Longrightarrow> k < length xs \<Longrightarrow> xs ! i = xs ! k \<Longrightarrow> xs ! j = xs ! i"
proof (induction xs arbitrary: i j k)
  case Nil
  then show ?case by simp
next
  case (Cons x xs)
  show ?case
  proof (cases i)
    case i0: 0
    show ?thesis
    proof (cases j)
      case 0
      with i0 show ?thesis by simp
    next
      case (Suc j')
      then obtain k' where k: "k = Suc k'" using Cons.prems(3) by (cases k) auto
      have xk: "x = xs ! k'" using Cons.prems(5) i0 k by simp
      have kl: "k' < length xs" using Cons.prems(4) k by simp
      then have "x \<in> set xs" using xk by auto
      with Cons.prems(1) have "x = hd xs" by simp
      moreover have "xs \<noteq> []" using kl by auto
      ultimately have x0: "xs ! 0 = x" by (simp add: hd_conv_nth)
      have "xs ! j' = xs ! 0"
        using Cons.IH [of 0 j' k'] Cons.prems(1,3) Suc k kl x0 xk by simp
      then show ?thesis using Suc i0 x0 by simp
    qed
  next
    case (Suc i')
    then obtain j' k' where "j = Suc j'" "k = Suc k'"
      using Cons.prems(2,3) by (cases j; cases k) auto
    then show ?thesis using Cons.IH [of i' j' k'] Cons.prems Suc by simp
  qed
qed

lemma wellformed_keep:
  assumes "wellformed s" and "history s' = history s" and "created s \<le> created s'"
    and "- 1 \<le> historyIndex s'" and "historyIndex s' < int (length (history s'))"
  shows "wellformed s'"
  using assms by (fastforce simp: wellformed_def known_urls_def)

lemma history_push:
  assumes "- 1 \<le> historyIndex s"
  shows "history (addImageToHistory e s) = take (nat (historyIndex s + 1)) (history s) @ [e]"
    and "historyIndex (addImageToHistory e s) = int (length (history (addImageToHistory e s))) - 1"
    and "created (addImageToHistory e s) = created s"
  using assms by (simp_all add: addImageToHistory_def Let_def slice_prefix)

lemma wellformed_push_shared:
  assumes "wellformed s" and "currentState s = Some st"
  shows "wellformed (addImageToHistory (st\<lparr>layers := ls\<rparr>) s)"
proof -
  let ?n = "nat (historyIndex s + 1)"
  let ?us = "map imageUrl (history s)"
  from assms(2) have r: "0 \<le> historyIndex s" "historyIndex s < int (length (history s))"
    and st: "st = history s ! nat (historyIndex s)"
    using currentState_SomeD by blast+
  note p = push_at_current [OF assms(2), of "st\<lparr>layers := ls\<rparr>"]
  have mem: "st \<in> set (history s)"
    using r st by simp
  have ne: "take ?n ?us \<noteq> []"
    using r by auto
  have nl: "?n \<le> length ?us" "0 < ?n"
    using r by simp_all
  then have len: "length (take ?n ?us) = ?n"
    by simp
  have "last (take ?n ?us) = take ?n ?us ! (?n - 1)"
    using last_conv_nth [OF ne] by (simp only: len)
  also have "\<dots> = ?us ! (?n - 1)"
    using nl by simp
  also have "\<dots> = imageUrl st"
    using r st by (simp add: nat_add_distrib)
  finally have lst: "last (take ?n ?us) = imageUrl st" .
  have c: "contiguous (take ?n ?us)"
    using assms(1) by (simp add: wellformed_def contiguous_take)
  have "contiguous (take ?n ?us @ [last (take ?n ?us)])"
    using c ne by (rule contiguous_snoc_last)
  then have cont: "contiguous (map imageUrl (history (addImageToHistory (st\<lparr>layers := ls\<rparr>) s)))"
    unfolding lst by (simp add: p(1) take_map)
  have known: "known_urls (addImageToHistory (st\<lparr>layers := ls\<rparr>) s)"
    using assms(1) mem r
    by (auto simp: wellformed_def known_urls_def p(1) history_push(3) dest: in_set_takeD)
  show ?thesis
    using r cont known by (simp add: wellformed_def p(1) p(2))
qed

lemma wellformed_push_fresh:
  assumes "wellformed s" and "history t = history s" and "historyIndex t = historyIndex s"
    and "created s \<le> n" and "n < created t" and "imageUrl e = ''blob:'' @ toString n"
  shows "wellformed (addImageToHistory e t)" and "fresh_last (addImageToHistory e t)"
proof -
  let ?k = "nat (historyIndex s + 1)"
  let ?us = "map imageUrl (history s)"
  from assms(1) have r: "- 1 \<le> historyIndex t"
    by (simp add: wellformed_def assms(3))
  note p = history_push [OF r, of e]
  have new: "imageUrl e \<notin> set ?us"
  proof
    assume "imageUrl e \<in> set ?us"
    then obtain k where "k < created s" "''blob:'' @ toString k = ''blob:'' @ toString n"
      using assms(1,6) by (auto simp: wellformed_def known_urls_def)
    then have "k < created s" "k = n" using toString_inj by auto
    then show False using assms(4) by simp
  qed
  then have new': "imageUrl e \<notin> set (take ?k ?us)"
    by (meson in_set_takeD)
  have "contiguous (take ?k ?us @ [imageUrl e])"
    using assms(1) new' by (intro contiguous_snoc_fresh contiguous_take) (simp_all add: wellformed_def)
  then have cont: "contiguous (map imageUrl (history (addImageToHistory e t)))"
    by (simp add: p(1) assms(2,3) take_map)
  have "\<exists>k<created t. imageUrl x = ''blob:'' @ toString k" if "x \<in> set (history s)" for x
  proof -
    from that assms(1) obtain k where "k < created s" "imageUrl x = ''blob:'' @ toString k"
      by (auto simp: wellformed_def known_urls_def)
    then show ?thesis using assms(4,5) by (intro exI [of _ k]) simp
  qed
  then have known: "known_urls (addImageToHistory e t)"
    using assms(5,6) by (auto simp: known_urls_def p(1) p(3) assms(2,3) dest: in_set_takeD)
  show "wellformed (addImageToHistory e t)"
    using cont known by (simp add: wellformed_def p(2) p(1))
  show "fresh_last (addImageToHistory e t)"
    using new' by (simp add: fresh_last_def p(1) assms(2,3) take_map)
qed

lemma wellformed_frame:
  "history a = history b \<Longrightarrow> historyIndex a = historyIndex b \<Longrightarrow> created a = created b
   \<Longrightarrow> wellformed a = wellformed b"
  by (simp add: wellformed_def known_urls_def)

lemma fresh_last_frame: "history a = history b \<Longrightarrow> fresh_last a = fresh_last b"
  by (simp add: fresh_last_def)

lemma pushEdited_cases:
  "pushEdited env pre edited s1 = Stuck s1
   \<or> (\<exists>e. pushEdited env pre edited s1 = Failed e s1)
   \<or> (\<exists>f. pushEdited env pre edited s1 =
          Done (addImageToHistory
                  \<lparr>imageFile = f, imageUrl = ''blob:'' @ toString (created s1), layers = []\<rparr>
                  (s1\<lparr>created := Suc (created s1)\<rparr>)))"
  by (auto simp: pushEdited_def createObjectURL_def split: outcome.splits)

lemma pushed_fresh:
  assumes "wellformed s1"
  shows "wellformed (addImageToHistory
                  \<lparr>imageFile = f, imageUrl = ''blob:'' @ toString (created s1), layers = ls\<rparr>
                  (s1\<lparr>created := Suc (created s1)\<rparr>))"
    and "fresh_last (addImageToHistory
                  \<lparr>imageFile = f, imageUrl = ''blob:'' @ toString (created s1), layers = ls\<rparr>
                  (s1\<lparr>created := Suc (created s1)\<rparr>))"
  by (rule wellformed_push_fresh [OF assms, where n = "created s1"]; simp)+

lemma recover_pushEdited:
  assumes "wellformed s1"
  shows "wellformed (recover msg (pushEdited env pre edited s1))
       \<and> (history (recover msg (pushEdited env pre edited s1)) = history s1
          \<or> fresh_last (recover msg (pushEdited env pre edited s1)))"
proof -
  consider "pushEdited env pre edited s1 = Stuck s1"
    | e where "pushEdited env pre edited s1 = Failed e s1"
    | f where "pushEdited env pre edited s1 =
          Done (addImageToHistory
                  \<lparr>imageFile = f, imageUrl = ''blob:'' @ toString (created s1), layers = []\<rparr>
                  (s1\<lparr>created := Suc (created s1)\<rparr>))"
    using pushEdited_cases by blast
  then show ?thesis
  proof cases
    case 1
    then show ?thesis using assms by (simp add: recover_def)
  next
    case 2
    have "wellformed (s1\<lparr>error := x, loadingMessage := y\<rparr>) = wellformed s1" for x y
      by (rule wellformed_frame) simp_all
    with 2 show ?thesis using assms by (simp add: recover_def)
  next
    case 3
    let ?p = "addImageToHistory
                  \<lparr>imageFile = f, imageUrl = ''blob:'' @ toString (created s1), layers = []\<rparr>
                  (s1\<lparr>created := Suc (created s1)\<rparr>)"
    have "wellformed (?p\<lparr>loadingMessage := None\<rparr>) = wellformed ?p"
      by (rule wellformed_frame) simp_all
    moreover have "fresh_last (?p\<lparr>loadingMessage := None\<rparr>) = fresh_last ?p"
      by (rule fresh_last_frame) simp
    ultimately show ?thesis
      using 3 pushed_fresh [OF assms, of f "[]"] by (simp add: recover_def)
  qed
qed

lemma wellformed_startLoading [simp]: "wellformed (startLoading m s) = wellformed s"
  by (rule wellformed_frame) (simp_all add: startLoading_def)

lemma wellformed_error [simp]: "wellformed (s\<lparr>error := x\<rparr>) = wellformed s"
  by (rule wellformed_frame) simp_all

lemma wellformed_handleApplyGlobalEdit:
  assumes "wellformed s"
  shows "wellformed (handleApplyGlobalEdit env editFunction p message s)
       \<and> (history (handleApplyGlobalEdit env editFunction p message s) = history s
          \<or> fresh_last (handleApplyGlobalEdit env editFunction p message s))"
proof (cases "currentState s")
  case None
  then show ?thesis using assms by (simp add: handleApplyGlobalEdit_def)
next
  case (Some st)
  let ?s1 = "startLoading message s"
  have w: "wellformed ?s1" using assms by simp
  have "wellformed (?s1\<lparr>error := x, loadingMessage := y\<rparr>) = wellformed s" for x y
    by (rule wellformed_frame) (simp_all add: startLoading_def)
  then have fr: "wellformed (?s1\<lparr>error := x, loadingMessage := y\<rparr>)" for x y
    using assms by simp
  show ?thesis
  proof (cases "flattenImage env ?s1")
    case (Returns fileToEdit)
    then show ?thesis
      using recover_pushEdited [OF w, of "''Failed to apply the edit. ''" env "''edited-''"
          "editFunction fileToEdit p"] Some
      by (simp add: handleApplyGlobalEdit_def handleApplyGlobalEdit_try_def)
  next
    case (Throws e)
    then show ?thesis using Some fr
      by (simp add: handleApplyGlobalEdit_def handleApplyGlobalEdit_try_def recover_def)
  next
    case Pending
    then show ?thesis using Some w
      by (simp add: handleApplyGlobalEdit_def handleApplyGlobalEdit_try_def recover_def)
  qed
qed

lemma wellformed_handleRemove:
  assumes "wellformed s"
  shows "wellformed (handleRemove env s)
       \<and> (history (handleRemove env s) = history s \<or> fresh_last (handleRemove env s))"
proof (cases "currentState s = None \<or> \<not> truthy (maskImage s)")
  case True
  then show ?thesis using assms by (simp add: handleRemove_def)
next
  case False
  let ?s1 = "startLoading ''Removing selected object...'' s"
  let ?msg = "''Failed to remove the object. ''"
  have w: "wellformed ?s1" using assms by simp
  have h: "handleRemove env s = recover ?msg (handleRemove_try env (the (maskImage s)) ?s1)"
    using False by (auto simp: handleRemove_def)
  have "wellformed (?s1\<lparr>error := x, loadingMessage := y\<rparr>) = wellformed s" for x y
    by (rule wellformed_frame) (simp_all add: startLoading_def)
  then have fr: "wellformed (?s1\<lparr>error := x, loadingMessage := y\<rparr>)" for x y
    using assms by simp
  show ?thesis
  proof (cases "flattenImage env ?s1")
    case (Returns fileToEdit)
    let ?ed = "removeObjectInpainting env fileToEdit (the (maskImage s))"
    consider "pushEdited env ''removed-'' ?ed ?s1 = Stuck ?s1"
      | e where "pushEdited env ''removed-'' ?ed ?s1 = Failed e ?s1"
      | f where "pushEdited env ''removed-'' ?ed ?s1 =
          Done (addImageToHistory
                  \<lparr>imageFile = f, imageUrl = ''blob:'' @ toString (created ?s1), layers = []\<rparr>
                  (?s1\<lparr>created := Suc (created ?s1)\<rparr>))"
      using pushEdited_cases by blast
    then show ?thesis
    proof cases
      case 1
      with Returns show ?thesis using w by (simp add: h handleRemove_try_def recover_def)
    next
      case 2
      with Returns show ?thesis using fr by (simp add: h handleRemove_try_def recover_def)
    next
      case 3
      let ?p = "addImageToHistory
                  \<lparr>imageFile = f, imageUrl = ''blob:'' @ toString (created ?s1), layers = []\<rparr>
                  (?s1\<lparr>created := Suc (created ?s1)\<rparr>)"
      let ?r = "?p\<lparr>activeLayerId := None, editHotspot := None, displayHotspot := None,
                    maskImage := None, loadingMessage := None\<rparr>"
      have r: "handleRemove env s = ?r"
        using Returns 3 by (simp add: h handleRemove_try_def recover_def)
      have "wellformed ?r = wellformed ?p"
        by (rule wellformed_frame) simp_all
      moreover have "fresh_last ?r = fresh_last ?p"
        by (rule fresh_last_frame) simp
      ultimately show ?thesis
        unfolding r using pushed_fresh [OF w, of f "[]"] by simp
    qed
  next
    case (Throws e)
    then show ?thesis using fr by (simp add: h handleRemove_try_def recover_def)
  next
    case Pending
    then show ?thesis using w by (simp add: h handleRemove_try_def recover_def)
  qed
qed

lemma wellformed_handleGenerate:
  assumes "wellformed s"
  shows "wellformed (handleGenerate env s)"
proof (cases "currentState s")
  case None
  then show ?thesis using assms by (simp add: handleGenerate_def)
next
  case (Some st)
  define m where "m = (if activeLayer s \<noteq> None then ''Updating layer...''
                       else ''Generating new layer...'')"
  let ?s1 = "startLoading m s"
  have w: "wellformed ?s1" using assms by simp
  have c: "currentState ?s1 = Some st" using Some by simp
  have "wellformed (?s1\<lparr>error := x, loadingMessage := y\<rparr>) = wellformed s" for x y
    by (rule wellformed_frame) (simp_all add: startLoading_def)
  then have fr: "wellformed (?s1\<lparr>error := x, loadingMessage := y\<rparr>)" for x y
    using assms by simp
  have t: "wellformed (recover msg (handleGenerate_try env st ?s1))" for msg
  proof (cases "generateEditedImage env (imageFile st) (prompt ?s1)
             (if hasPointSelection ?s1 then editHotspot ?s1 else None)
             (if hasBrushSelection ?s1 then maskImage ?s1 else None)")
    case (Returns url)
    let ?p = "addImageToHistory (st\<lparr>layers := fst (newLayers env ?s1 url)\<rparr>) ?s1"
    let ?r = "?p\<lparr>activeLayerId := Some (snd (newLayers env ?s1 url)), editHotspot := None,
                  displayHotspot := None, loadingMessage := None\<rparr>"
    have "handleGenerate_try env st ?s1 =
            Done (?p\<lparr>activeLayerId := Some (snd (newLayers env ?s1 url)), editHotspot := None,
                      displayHotspot := None\<rparr>)"
      unfolding handleGenerate_try_def Returns by (simp add: Let_def case_prod_beta)
    then have r: "recover msg (handleGenerate_try env st ?s1) = ?r"
      by (simp add: recover_def)
    have "wellformed ?r = wellformed ?p"
      by (rule wellformed_frame) simp_all
    then show ?thesis
      unfolding r using wellformed_push_shared [OF w c] by simp
  next
    case (Throws e)
    then show ?thesis using fr by (simp add: handleGenerate_try_def recover_def)
  next
    case Pending
    then show ?thesis using w by (simp add: handleGenerate_try_def recover_def)
  qed
  show ?thesis
    using assms Some t [of "''Failed to generate the image. ''"]
    unfolding m_def by (simp add: handleGenerate_def)
qed

lemma wellformed_handleDeleteLayer:
  assumes "wellformed s"
  shows "wellformed (handleDeleteLayer layerId s)"
proof (cases "currentState s")
  case None
  then show ?thesis using assms by (simp add: handleDeleteLayer_def)
next
  case (Some st)
  let ?p = "addImageToHistory (st\<lparr>layers := filter (\<lambda>l. layer_id l \<noteq> layerId) (currentLayers s)\<rparr>) s"
  have p: "wellformed ?p" using assms Some by (rule wellformed_push_shared)
  have "wellformed (?p\<lparr>activeLayerId := None, activeTool := point\<rparr>) = wellformed ?p"
    by (rule wellformed_frame) simp_all
  with p show ?thesis using Some by (simp add: handleDeleteLayer_def Let_def)
qed

lemma wellformed_handleImageUpload:
  "wellformed s \<Longrightarrow> wellformed (handleImageUpload file s)"
  by (simp add: handleImageUpload_def createObjectURL_def wellformed_def known_urls_def)

lemma wellformed_history_moves:
  assumes "wellformed s"
  shows "wellformed (handleUndo s)" "wellformed (handleRedo s)" "wellformed (handleReset s)"
    "wellformed (handleUploadNew s)"
  using assms
  by (auto simp: wellformed_def known_urls_def handleUndo_def handleRedo_def handleReset_def
      handleUploadNew_def canUndo_def canRedo_def)

lemma wellformed_selection:
  assumes "wellformed s"
  shows "wellformed (handleBaseImageClick e s)" "wellformed (handleSelectLayer layerId s)"
  using assms
  by (simp_all add: wellformed_def known_urls_def handleBaseImageClick_def Let_def
      handleSelectLayer_def)

lemma wellformed_handleApplyCrop:
  assumes "wellformed s"
  shows "wellformed (handleApplyCrop env s)
       \<and> (history (handleApplyCrop env s) = history s \<or> fresh_last (handleApplyCrop env s))"
proof -
  have keep: "wellformed s' \<and> (history s' = history s \<or> fresh_last s')"
    if "history s' = history s" "historyIndex s' = historyIndex s" "created s \<le> created s'" for s'
  proof -
    have "wellformed s'"
      using assms that(1) that(3)
    proof (rule wellformed_keep)
      show "- 1 \<le> historyIndex s'" "historyIndex s' < int (length (history s'))"
        using assms that by (simp_all add: wellformed_def)
    qed
    then show ?thesis using that(1) by simp
  qed
  have push: "wellformed ((addImageToHistory e t)\<lparr>loadingMessage := None\<rparr>)
      \<and> (history ((addImageToHistory e t)\<lparr>loadingMessage := None\<rparr>) = history s
          \<or> fresh_last ((addImageToHistory e t)\<lparr>loadingMessage := None\<rparr>))"
    if "history t = history s" "historyIndex t = historyIndex s"
      "created t = Suc (Suc (created s))"
      "imageUrl e = ''blob:'' @ toString (Suc (created s))" for e t
  proof -
    have n: "created s \<le> Suc (created s)" "Suc (created s) < created t"
      using that(3) by simp_all
    note f = wellformed_push_fresh [OF assms that(1) that(2) n that(4)]
    have "wellformed ((addImageToHistory e t)\<lparr>loadingMessage := None\<rparr>) = wellformed (addImageToHistory e t)"
      by (rule wellformed_frame) simp_all
    moreover have "fresh_last ((addImageToHistory e t)\<lparr>loadingMessage := None\<rparr>) = fresh_last (addImageToHistory e t)"
      by (rule fresh_last_frame) simp
    ultimately show ?thesis using f by simp
  qed
  show ?thesis
  proof (cases "completedCrop s")
    case None
    then show ?thesis by (simp add: handleApplyCrop_def keep)
  next
    case (Some c)
    let ?s1 = "s\<lparr>loadingMessage := Some ''Applying crop...''\<rparr>"
    show ?thesis
    proof (cases "imgMounted env")
      case False
      then show ?thesis using Some by (simp add: handleApplyCrop_def keep)
    next
      case True
      show ?thesis
      proof (cases "flattenImage env ?s1")
        case (Returns r)
        show ?thesis
        proof (cases r)
          case None
          then show ?thesis using Some True Returns by (simp add: handleApplyCrop_def keep)
        next
          case (Some flattenedFile)
          let ?u = "''blob:'' @ toString (created s)"
          let ?s2 = "?s1\<lparr>created := Suc (created s)\<rparr>"
          let ?s3 = "?s2\<lparr>revoked := revoked ?s2 @ [?u]\<rparr>"
          show ?thesis
          proof (cases "loads env ?u")
            case False
            then show ?thesis
              using \<open>completedCrop s = Some c\<close> True Returns Some
              by (simp add: handleApplyCrop_def createObjectURL_def keep)
          next
            case l: True
            show ?thesis
            proof (cases "crop_context2d env")
              case False
              then show ?thesis
                using \<open>completedCrop s = Some c\<close> True Returns Some l
                by (simp add: handleApplyCrop_def createObjectURL_def keep)
            next
              case cx: True
              show ?thesis
              proof (cases "dataURLtoFile env (crop_toDataURL env ?u c)
                            (''cropped-'' @ toString (now env) @ ''.png'')")
                case (Returns newImageFile)
                then have eq: "handleApplyCrop env s =
                    (addImageToHistory
                       \<lparr>imageFile = newImageFile,
                          imageUrl = ''blob:'' @ toString (Suc (created s)), layers = []\<rparr>
                       (?s3\<lparr>created := Suc (Suc (created s))\<rparr>))\<lparr>loadingMessage := None\<rparr>"
                  using \<open>completedCrop s = Some c\<close> True \<open>flattenImage env ?s1 = Returns r\<close> Some l cx
                  by (simp add: handleApplyCrop_def createObjectURL_def)
                show ?thesis
                  unfolding eq by (rule push) simp_all
              next
                case (Throws e)
                then show ?thesis
                  using \<open>completedCrop s = Some c\<close> True \<open>flattenImage env ?s1 = Returns r\<close> Some l cx
                  by (simp add: handleApplyCrop_def createObjectURL_def keep)
              next
                case Pending
                then show ?thesis
                  using \<open>completedCrop s = Some c\<close> True \<open>flattenImage env ?s1 = Returns r\<close> Some l cx
                  by (simp add: handleApplyCrop_def createObjectURL_def keep)
              qed
            qed
          qed
        qed
      next
        case (Throws e)
        then show ?thesis using Some True by (simp add: handleApplyCrop_def keep)
      next
        case Pending
        then show ?thesis using Some True by (simp add: handleApplyCrop_def keep)
      qed
    qed
  qed
qed

lemma wellformed_perform: "wellformed s \<Longrightarrow> wellformed (perform s a)"
proof (cases a)
  case (ImageUpload x)
  then show "wellformed s \<Longrightarrow> ?thesis" by (simp add: wellformed_handleImageUpload)
next
  case (Generate x)
  then show "wellformed s \<Longrightarrow> ?thesis" by (simp add: wellformed_handleGenerate)
next
  case (Remove x)
  then show "wellformed s \<Longrightarrow> ?thesis" by (simp add: wellformed_handleRemove)
next
  case (ApplyGlobalEdit x1 x2 x3 x4)
  then show "wellformed s \<Longrightarrow> ?thesis" by (simp add: wellformed_handleApplyGlobalEdit)
next
  case (ApplyCrop x)
  then show "wellformed s \<Longrightarrow> ?thesis" by (simp add: wellformed_handleApplyCrop)
next
  case (DeleteLayer x)
  then show "wellformed s \<Longrightarrow> ?thesis" by (simp add: wellformed_handleDeleteLayer)
next
  case (BaseImageClick x)
  then show "wellformed s \<Longrightarrow> ?thesis" by (simp add: wellformed_selection)
next
  case (SelectLayer x)
  then show "wellformed s \<Longrightarrow> ?thesis" by (simp add: wellformed_selection)
qed (simp_all add: wellformed_history_moves, simp_all add: wellformed_def known_urls_def)

lemma wellformed_foldl: "wellformed s \<Longrightarrow> wellformed (foldl perform s acts)"
  by (induction acts arbitrary: s) (simp_all add: wellformed_perform)

lemma wellformed_session: "wellformed (session acts)"
  unfolding session_def by (rule wellformed_foldl) (simp add: wellformed_def known_urls_def initialApp_def)

lemma session_appPoint:
  "session [ImageUpload file0, SetPrompt ''add hat'', BaseImageClick click1] = appPoint"
proof -
  have "session [ImageUpload file0, SetPrompt ''add hat'', BaseImageClick click1]
      = handleBaseImageClick click1 (app1\<lparr>prompt := ''add hat''\<rparr>)"
    by (simp add: session_def upload_app1)
  also have "\<dots> = appPoint"
    by (simp add: handleBaseImageClick_def Let_def click1_def appPoint_def app1_def
        initialApp_def floor_eq_iff)
  finally show ?thesis .
qed

lemma session_snoc: "session (acts @ [a]) = perform (session acts) a"
  by (simp add: session_def)

lemma generate_appPoint:
  "history (handleGenerate envOk appPoint) = [entryA, entryA\<lparr>layers := [layerHat]\<rparr>]"
  "historyIndex (handleGenerate envOk appPoint) = 1"
proof -
  have c1: "currentState appPoint = Some entryA"
    by (simp add: currentState_def appPoint_def app1_def initialApp_def)
  have p1: "trim (prompt appPoint) \<noteq> []"
    by (simp add: trim_def is_space_def appPoint_def)
  have a1: "activeLayer appPoint = None"
    by (simp add: activeLayer_def appPoint_def app1_def initialApp_def)
  have h1: "hasPointSelection appPoint"
    by (simp add: hasPointSelection_def appPoint_def app1_def initialApp_def)
  have g1: "activeLayer appPoint \<noteq> None \<or> hasPointSelection appPoint \<or> hasBrushSelection appPoint"
    using h1 by simp
  have r1: "generateEditedImage envOk (imageFile entryA) (prompt appPoint)
           (if hasPointSelection appPoint then editHotspot appPoint else None)
           (if hasBrushSelection appPoint then maskImage appPoint else None)
         = Returns ''data:image/png;base64,aGF0''"
    by (simp add: envOk_def)
  have cl: "currentLayers appPoint = []"
    by (simp add: currentLayers_def c1 entryA_def)
  have pr: "prompt appPoint = ''add hat''" "now envOk = 7"
    by (simp_all add: appPoint_def envOk_def)
  have nl: "fst (newLayers envOk appPoint ''data:image/png;base64,aGF0'') = [layerHat]"
    by (simp add: newLayers_def a1 cl layerHat_def pr)
  have hi: "historyIndex appPoint = 0" "history appPoint = [entryA]"
    by (simp_all add: appPoint_def app1_def initialApp_def)
  show "history (handleGenerate envOk appPoint) = [entryA, entryA\<lparr>layers := [layerHat]\<rparr>]"
    using generate_pushes(1) [OF c1 p1 g1 r1] by (simp add: nl hi)
  show "historyIndex (handleGenerate envOk appPoint) = 1"
    using generate_pushes(2) [OF c1 p1 g1 r1] by (simp add: hi)
qed




lemma toString_1 [simp]: "toString 1 = ''1''" "toString (Suc 0) = ''1''"
  by (simp_all add: toString.simps)

lemma dataURLtoFile_png:
  "dataURLtoFile envOk ''data:image/png;base64,UE5H'' name
     = Returns \<lparr>file_bits = ''UE5H'', file_name = name, file_type = ''image/png''\<rparr>"
  by (simp add: dataURLtoFile_def Let_def envOk_def)

lemma globalEdit_app1:
  "history (handleApplyGlobalEdit envOk okEdit ''sepia'' ''Applying filter...'' app1)
     = [entryA,
        \<lparr>imageFile = \<lparr>file_bits = ''UE5H'', file_name = ''edited-7.png'',
                        file_type = ''image/png''\<rparr>,
         imageUrl = ''blob:1'', layers = []\<rparr>]"
proof -
  let ?s1 = "startLoading ''Applying filter...'' app1"
  have c: "currentState app1 = Some entryA"
    by (simp add: currentState_def app1_def initialApp_def)
  have fl: "flattenImage envOk ?s1 = Returns (Some file0)"
    by (simp add: flattenImage_def c currentLayers_def entryA_def)
  have n: "now envOk = 7" by (simp add: envOk_def)
  have cr: "created ?s1 = 1" "historyIndex ?s1 = 0" "history ?s1 = [entryA]"
    by (simp_all add: startLoading_def app1_def initialApp_def)
  have pe: "pushEdited envOk ''edited-'' (okEdit (Some file0) ''sepia'') ?s1
      = Done (addImageToHistory
               \<lparr>imageFile = \<lparr>file_bits = ''UE5H'', file_name = ''edited-7.png'',
                               file_type = ''image/png''\<rparr>,
                  imageUrl = ''blob:1'', layers = []\<rparr>
               (?s1\<lparr>created := Suc (created ?s1)\<rparr>))"
    by (simp add: pushEdited_def okEdit_def dataURLtoFile_png n createObjectURL_def cr)
  have eq: "handleApplyGlobalEdit envOk okEdit ''sepia'' ''Applying filter...'' app1
      = recover ''Failed to apply the edit. '' (pushEdited envOk ''edited-'' (okEdit (Some file0) ''sepia'') ?s1)"
    by (simp add: handleApplyGlobalEdit_def c handleApplyGlobalEdit_try_def fl)
  show ?thesis
    unfolding eq pe
    by (simp add: recover_def addImageToHistory_def Let_def slice_def slice_pos_def
        startLoading_def app1_def initialApp_def)
qed

lemma session_generate_delete:
  "history (session [ImageUpload file0, SetPrompt ''add hat'', BaseImageClick click1,
                     Generate envOk, DeleteLayer ''7''])
     = [entryA, entryA\<lparr>layers := [layerHat]\<rparr>, entryA]"
proof -
  let ?g = "handleGenerate envOk appPoint"
  have s: "session [ImageUpload file0, SetPrompt ''add hat'', BaseImageClick click1,
                     Generate envOk, DeleteLayer ''7'']
      = handleDeleteLayer ''7'' ?g"
    using session_snoc [of "[ImageUpload file0, SetPrompt ''add hat'', BaseImageClick click1,
                     Generate envOk]" "DeleteLayer ''7''"]
      session_snoc [of "[ImageUpload file0, SetPrompt ''add hat'', BaseImageClick click1]"
        "Generate envOk"]
    by (simp add: session_appPoint)
  have c: "currentState ?g = Some (entryA\<lparr>layers := [layerHat]\<rparr>)"
    by (simp add: currentState_def generate_appPoint)
  have cl: "currentLayers ?g = [layerHat]"
    by (simp add: currentLayers_def c)
  have "history (handleDeleteLayer ''7'' ?g)
      = history (addImageToHistory (entryA\<lparr>layers := [layerHat]\<rparr>\<lparr>layers := []\<rparr>) ?g)"
    by (simp add: handleDeleteLayer_def c cl Let_def layerHat_def)
  also have "\<dots> = [entryA, entryA\<lparr>layers := [layerHat]\<rparr>, entryA]"
    using push_at_current(1) [OF c] by (simp add: generate_appPoint entryA_def)
  finally show ?thesis by (simp add: s)
qed


end
